theory Spec2Isabelle
  imports Main "HOL-Library.Word"
begin

section \<open>Data model of \<open>SimpleNovaSonicStreaming\<close>\<close>

text \<open>
  The class \<open>SimpleNovaSonicStreaming\<close> of \<open>nova_sonic_class_streaming.py\<close> is embedded
  as a record of its attributes, extended by a log of the calls it makes on its external
  collaborators (the Bedrock stream, PyAudio, the asyncio task factory).  Every coroutine
  of the class becomes a function from the session before the call to the session after
  it; the two background loops and the playback loop, which interleave with the caller at
  their \<open>await\<close> points, become step functions over a program counter.
\<close>

type_synonym byte = "8 word"
type_synonym bytes = "byte list"

text \<open>
  The argument of \<open>json.dumps\<close> and the result of \<open>json.loads\<close>.  A wire message is
  represented by the document it serialises; a Python \<open>float\<close> literal is kept as the
  decimal text \<open>json.dumps\<close> prints for it.
\<close>

datatype json =
    JNull
  | JBool bool
  | JInt int
  | JFloat string
  | JStr string
  | JArr "json list"
  | JObj "(string \<times> json) list"

text \<open>The dictionary \<open>add_audio_chunk\<close> puts into \<open>audio_input_queue\<close>.\<close>

datatype queue_item =
  QueueItem (audio_bytes: bytes) (item_prompt_name: string) (item_content_name: string)

text \<open>A PyAudio stream object, as far as \<open>stop_conversation\<close> inspects and changes it.\<close>

datatype pa_stream = PaStream (pa_running: bool) (pa_closed: bool)

text \<open>The coroutines handed to \<open>asyncio.create_task\<close> by \<open>initialize_stream\<close>.\<close>

datatype task = ProcessResponsesTask | ProcessAudioInputTask

text \<open>
  What \<open>initialize_stream\<close> re-raises, and what escapes \<open>stop_conversation\<close>, which has
  no handler: the \<open>OSError\<close> PyAudio raises when a closed stream is asked whether it is
  active, and whatever the stream's \<open>close\<close> raises.
\<close>

datatype py_exception = AttributeError | StreamOpenError | OSError | StreamCloseError

text \<open>
  The outcomes the external collaborators choose: whether the \<open>n\<close>-th construction of
  the Bedrock client, the \<open>n\<close>-th \<open>invoke_model_with_bidirectional_stream\<close>, the
  \<open>n\<close>-th \<open>input_stream.send\<close>, the \<open>n\<close>-th \<open>output_stream.write\<close>, the \<open>n\<close>-th
  \<open>p.open\<close> and the \<open>n\<close>-th \<open>input_stream.close\<close> of a Bedrock stream succeed
  (\<open>True\<close>) or raise (\<open>False\<close>).
\<close>

record env =
  client_ok :: "nat \<Rightarrow> bool"
  open_ok :: "nat \<Rightarrow> bool"
  send_ok :: "nat \<Rightarrow> bool"
  write_ok :: "nat \<Rightarrow> bool"
  pa_open_ok :: "nat \<Rightarrow> bool"
  close_ok :: "nat \<Rightarrow> bool"

text \<open>
  The attributes of the object (\<open>voice_id\<close> to \<open>output_stream\<close>), then the log of its
  calls on the collaborators: \<open>client_attempts\<close>, \<open>stream_opens\<close> and \<open>pa_opens\<close>
  count the constructions of the client, the stream invocations and the calls of
  \<open>p.open\<close>; \<open>sends\<close> lists every call of \<open>stream_response.input_stream.send\<close> with
  the stream it went to, the document and whether it succeeded; \<open>closes\<close> lists the
  streams \<open>input_stream.close()\<close> was called on; \<open>tasks\<close> lists the tasks created,
  each with the number of sends that had been made when it was created; \<open>writes\<close> the
  calls of \<open>output_stream.write\<close> with their outcome; \<open>pa_terminations\<close> the calls of
  \<open>p.terminate()\<close>.  A stream object is identified by the number of the invocation
  that returned it.
\<close>

record session =
  voice_id :: string
  bedrock_client :: bool
  stream_response :: "nat option"
  is_active :: bool
  audio_input_queue :: "queue_item list"
  audio_output_queue :: "bytes list"
  prompt_name :: string
  content_name :: string
  audio_content_name :: string
  input_stream :: "pa_stream option"
  output_stream :: "pa_stream option"
  client_attempts :: nat
  stream_opens :: nat
  sends :: "(nat \<times> json \<times> bool) list"
  closes :: "nat list"
  tasks :: "(task \<times> nat) list"
  writes :: "(bytes \<times> bool) list"
  pa_terminations :: nat
  pa_opens :: nat

section \<open>Construction and the handshake\<close>

definition initialize_client :: "env \<Rightarrow> session \<Rightarrow> session" where
  "initialize_client e s =
     s\<lparr>bedrock_client := (if client_ok e (client_attempts s) then True else bedrock_client s),
       client_attempts := Suc (client_attempts s)\<rparr>"

text \<open>\<open>__init__\<close>; the three identifiers are the \<open>uuid4\<close> values it draws.\<close>

definition new_session :: "env \<Rightarrow> string \<Rightarrow> string \<Rightarrow> string \<Rightarrow> string \<Rightarrow> session" where
  "new_session e voice pn cn acn =
     initialize_client e
       \<lparr>voice_id = voice, bedrock_client = False, stream_response = None, is_active = False,
        audio_input_queue = [], audio_output_queue = [],
        prompt_name = pn, content_name = cn, audio_content_name = acn,
        input_stream = None, output_stream = None,
        client_attempts = 0, stream_opens = 0, sends = [], closes = [], tasks = [],
        writes = [], pa_terminations = 0, pa_opens = 0\<rparr>"

definition send_raw_event :: "env \<Rightarrow> json \<Rightarrow> session \<Rightarrow> session" where
  "send_raw_event e event_json s =
     (case stream_response s of
        None \<Rightarrow> s
      | Some sid \<Rightarrow>
          if \<not> is_active s then s
          else s\<lparr>sends := sends s @ [(sid, event_json, send_ok e (length (sends s)))]\<rparr>)"

definition session_start :: json where
  "session_start =
     JObj [(''event'', JObj [(''sessionStart'', JObj [(''inferenceConfiguration'',
       JObj [(''maxTokens'', JInt 1024), (''topP'', JFloat ''0.95''),
             (''temperature'', JFloat ''0.7'')])])])]"

definition prompt_start :: "session \<Rightarrow> json" where
  "prompt_start s =
     JObj [(''event'', JObj [(''promptStart'', JObj
       [(''promptName'', JStr (prompt_name s)),
        (''audioOutputConfiguration'', JObj
          [(''mediaType'', JStr ''audio/lpcm''), (''sampleRateHertz'', JInt 24000),
           (''sampleSizeBits'', JInt 16), (''channelCount'', JInt 1),
           (''voiceId'', JStr (voice_id s)), (''encoding'', JStr ''base64''),
           (''audioType'', JStr ''SPEECH'')])])])]"

definition content_start_system :: "session \<Rightarrow> json" where
  "content_start_system s =
     JObj [(''event'', JObj [(''contentStart'', JObj
       [(''promptName'', JStr (prompt_name s)), (''contentName'', JStr (content_name s)),
        (''type'', JStr ''TEXT''), (''role'', JStr ''SYSTEM''), (''interactive'', JBool True),
        (''textInputConfiguration'', JObj [(''mediaType'', JStr ''text/plain'')])])])]"

definition system_message :: "session \<Rightarrow> json" where
  "system_message s =
     JObj [(''event'', JObj [(''textInput'', JObj
       [(''promptName'', JStr (prompt_name s)), (''contentName'', JStr (content_name s)),
        (''content'', JStr
          ''You are a helpful voice assistant. Greet the user and wait for their question.'')])])]"

definition content_end_system :: "session \<Rightarrow> json" where
  "content_end_system s =
     JObj [(''event'', JObj [(''contentEnd'', JObj
       [(''promptName'', JStr (prompt_name s)), (''contentName'', JStr (content_name s))])])]"

text \<open>The five sends of \<open>_send_initialization_events\<close>; the sleeps between them only pass time.\<close>

definition send_initialization_events :: "env \<Rightarrow> session \<Rightarrow> session" where
  "send_initialization_events e s =
     send_raw_event e (content_end_system s)
      (send_raw_event e (system_message s)
        (send_raw_event e (content_start_system s)
          (send_raw_event e (prompt_start s)
            (send_raw_event e session_start s))))"

text \<open>
  \<open>initialize_stream\<close>.  With no client even after the second construction attempt, the
  attribute access on \<open>None\<close> raises inside the \<open>try\<close>; a failing invocation raises there
  too; both reach the handler, which clears \<open>is_active\<close> and re-raises.  Nothing after
  the invocation can raise: \<open>_send_raw_event\<close> catches what \<open>send\<close> raises.
\<close>

definition initialize_stream :: "env \<Rightarrow> session \<Rightarrow> (py_exception + unit) \<times> session" where
  "initialize_stream e s =
     (let s1 = (if \<not> bedrock_client s then initialize_client e s else s) in
      if \<not> bedrock_client s1 then (Inl AttributeError, s1\<lparr>is_active := False\<rparr>)
      else if \<not> open_ok e (stream_opens s1)
      then (Inl StreamOpenError, s1\<lparr>stream_opens := Suc (stream_opens s1), is_active := False\<rparr>)
      else
        let s2 = s1\<lparr>stream_response := Some (stream_opens s1),
                    stream_opens := Suc (stream_opens s1), is_active := True\<rparr>;
            s3 = send_initialization_events e s2
        in (Inr (),
            s3\<lparr>tasks := tasks s3 @ [(ProcessResponsesTask, length (sends s3)),
                                     (ProcessAudioInputTask, length (sends s3))]\<rparr>))"

section \<open>Base64, as the standard library computes it\<close>

text \<open>
  \<open>base64.b64encode\<close> and \<open>base64.b64decode\<close> are standard-library functions the
  class calls on every audio payload.  The encoder is RFC 4648 with the standard alphabet
  and \<open>=\<close> padding.  The decoder is the default, non-validating one: it skips every
  character outside the alphabet, stops at a completed pad sequence, and raises
  \<open>binascii.Error\<close> (here \<open>None\<close>) when the data characters do not fill their last
  quad.
\<close>

definition b64_alphabet :: string where
  "b64_alphabet = ''ABCDEFGHIJKLMNOPQRSTUVWXYZabcdefghijklmnopqrstuvwxyz0123456789+/''"

definition b64_char :: "byte \<Rightarrow> char" where
  "b64_char w = b64_alphabet ! unat w"

fun lookup_index :: "char list \<Rightarrow> char \<Rightarrow> nat \<Rightarrow> nat option" where
  "lookup_index [] c n = None"
| "lookup_index (x # xs) c n = (if x = c then Some n else lookup_index xs c (Suc n))"

definition b64_value :: "char \<Rightarrow> byte option" where
  "b64_value c = map_option of_nat (lookup_index b64_alphabet c 0)"

fun b64encode :: "bytes \<Rightarrow> string" where
  "b64encode [] = []"
| "b64encode [a] =
     [b64_char (drop_bit 2 a), b64_char (push_bit 4 (and a 3)), CHR ''='', CHR ''='']"
| "b64encode [a, b] =
     [b64_char (drop_bit 2 a), b64_char (or (push_bit 4 (and a 3)) (drop_bit 4 b)),
      b64_char (push_bit 2 (and b 15)), CHR ''='']"
| "b64encode (a # b # c # rest) =
     b64_char (drop_bit 2 a) # b64_char (or (push_bit 4 (and a 3)) (drop_bit 4 b)) #
     b64_char (or (push_bit 2 (and b 15)) (drop_bit 6 c)) # b64_char (and c 63) #
     b64encode rest"

text \<open>
  The decoding loop over the characters still to read, with the position in the current
  quad, the bits left over from the previous character and the pads seen since the last
  data character.
\<close>

fun a2b_base64 :: "string \<Rightarrow> nat \<Rightarrow> byte \<Rightarrow> nat \<Rightarrow> bytes option" where
  "a2b_base64 [] quad_pos leftchar pads = (if quad_pos = 0 then Some [] else None)"
| "a2b_base64 (ch # cs) quad_pos leftchar pads =
     (if ch = CHR ''='' then
        (if 2 \<le> quad_pos \<and> 4 \<le> quad_pos + Suc pads then Some []
         else a2b_base64 cs quad_pos leftchar (if 2 \<le> quad_pos then Suc pads else pads))
      else
        (case b64_value ch of
           None \<Rightarrow> a2b_base64 cs quad_pos leftchar pads
         | Some v \<Rightarrow>
             if quad_pos = 0 then a2b_base64 cs 1 v 0
             else if quad_pos = 1 then
               map_option ((#) (or (push_bit 2 leftchar) (drop_bit 4 v)))
                 (a2b_base64 cs 2 (and v 15) 0)
             else if quad_pos = 2 then
               map_option ((#) (or (push_bit 4 leftchar) (drop_bit 2 v)))
                 (a2b_base64 cs 3 (and v 3) 0)
             else
               map_option ((#) (or (push_bit 6 leftchar) v)) (a2b_base64 cs 0 0 0)))"

definition b64decode :: "string \<Rightarrow> bytes option" where
  "b64decode t = a2b_base64 t 0 0 0"

section \<open>Audio turn events and the capture queue\<close>

definition content_start :: "session \<Rightarrow> json" where
  "content_start s =
     JObj [(''event'', JObj [(''contentStart'', JObj
       [(''promptName'', JStr (prompt_name s)), (''contentName'', JStr (audio_content_name s)),
        (''type'', JStr ''AUDIO''), (''interactive'', JBool True), (''role'', JStr ''USER''),
        (''audioInputConfiguration'', JObj
          [(''mediaType'', JStr ''audio/lpcm''), (''sampleRateHertz'', JInt 16000),
           (''sampleSizeBits'', JInt 16), (''channelCount'', JInt 1),
           (''audioType'', JStr ''SPEECH''), (''encoding'', JStr ''base64'')])])])]"

definition content_end :: "session \<Rightarrow> json" where
  "content_end s =
     JObj [(''event'', JObj [(''contentEnd'', JObj
       [(''promptName'', JStr (prompt_name s)),
        (''contentName'', JStr (audio_content_name s))])])]"

definition send_audio_content_start :: "env \<Rightarrow> session \<Rightarrow> session" where
  "send_audio_content_start e s = send_raw_event e (content_start s) s"

definition send_audio_content_end :: "env \<Rightarrow> session \<Rightarrow> session" where
  "send_audio_content_end e s = send_raw_event e (content_end s) s"

text \<open>The queue is unbounded, so \<open>put_nowait\<close> never raises.\<close>

definition add_audio_chunk :: "bytes \<Rightarrow> session \<Rightarrow> session" where
  "add_audio_chunk ab s =
     s\<lparr>audio_input_queue :=
         audio_input_queue s @ [QueueItem ab (prompt_name s) (audio_content_name s)]\<rparr>"

definition input_callback :: "bytes \<Rightarrow> session \<Rightarrow> session" where
  "input_callback in_data s =
     (if is_active s \<and> in_data \<noteq> [] then add_audio_chunk in_data s else s)"

section \<open>The outbound loop \<open>_process_audio_input\<close>\<close>

definition audio_event :: "session \<Rightarrow> string \<Rightarrow> json" where
  "audio_event s blob =
     JObj [(''event'', JObj [(''audioInput'', JObj
       [(''promptName'', JStr (prompt_name s)),
        (''contentName'', JStr (audio_content_name s)),
        (''content'', JStr blob)])])]"

text \<open>
  The loop is suspended only inside \<open>audio_input_queue.get()\<close> (on an empty queue, with
  no timeout) and inside the send.  \<open>PumpLoopHead\<close> is the loop about to test
  \<open>is_active\<close>: a task not yet run, or one whose send has returned.  \<open>PumpAwaitGet\<close> is
  the loop suspended in \<open>get()\<close>.  A cancellation ends the loop wherever it is.
\<close>

datatype pump_pc = PumpLoopHead | PumpAwaitGet | PumpDone

text \<open>The loop body once \<open>get()\<close> has returned \<open>d\<close>.\<close>

definition pump_frame :: "env \<Rightarrow> queue_item \<Rightarrow> session \<Rightarrow> session" where
  "pump_frame e d s =
     (if audio_bytes d = [] then s
      else send_raw_event e (audio_event s (b64encode (audio_bytes d))) s)"

definition pump_get :: "env \<Rightarrow> session \<Rightarrow> pump_pc \<times> session" where
  "pump_get e s =
     (case audio_input_queue s of
        [] \<Rightarrow> (PumpAwaitGet, s)
      | d # q \<Rightarrow> (PumpLoopHead, pump_frame e d (s\<lparr>audio_input_queue := q\<rparr>)))"

fun process_audio_input :: "env \<Rightarrow> bool \<Rightarrow> pump_pc \<times> session \<Rightarrow> pump_pc \<times> session" where
  "process_audio_input e cancelled (PumpDone, s) = (PumpDone, s)"
| "process_audio_input e cancelled (PumpLoopHead, s) =
     (if cancelled then (PumpDone, s)
      else if \<not> is_active s then (PumpDone, s)
      else pump_get e s)"
| "process_audio_input e cancelled (PumpAwaitGet, s) =
     (if cancelled then (PumpDone, s) else pump_get e s)"

text \<open>\<open>n\<close> turns of the loop with no cancellation and no other activity in between.\<close>

fun pump_run :: "env \<Rightarrow> nat \<Rightarrow> pump_pc \<times> session \<Rightarrow> pump_pc \<times> session" where
  "pump_run e 0 st = st"
| "pump_run e (Suc n) st = pump_run e n (process_audio_input e False st)"

section \<open>The inbound loop \<open>_process_responses\<close>\<close>

text \<open>
  What one turn of the loop can meet at its two awaits and in the decoding that follows:
  the awaits raise \<open>StopAsyncIteration\<close>, some other exception, or the task's
  cancellation; the result carries no bytes; the bytes are not UTF-8; the text is not
  JSON; or the text parses to a document.
\<close>

datatype received =
    StopAsyncIteration
  | ReceiveError
  | CancelledError
  | NoBytes
  | UnicodeDecodeError
  | JSONDecodeError
  | Document json

text \<open>The exceptions the handling of a parsed document can raise.\<close>

datatype py_error = TypeError | KeyError | ValueError | BinasciiError

fun starts_with :: "string \<Rightarrow> string \<Rightarrow> bool" where
  "starts_with [] ys = True"
| "starts_with (x # xs) [] = False"
| "starts_with (x # xs) (y # ys) = (x = y \<and> starts_with xs ys)"

fun contains_text :: "string \<Rightarrow> string \<Rightarrow> bool" where
  "contains_text needle [] = (needle = [])"
| "contains_text needle (h # hs) = (starts_with needle (h # hs) \<or> contains_text needle hs)"

text \<open>
  Python's \<open>key in x\<close> for a string key: key membership on a dict, element membership
  on a list, substring test on a string, \<open>TypeError\<close> on anything else.
\<close>

fun py_in :: "string \<Rightarrow> json \<Rightarrow> py_error + bool" where
  "py_in k (JObj kvs) = Inr (map_of kvs k \<noteq> None)"
| "py_in k (JArr xs) = Inr (List.member xs (JStr k))"
| "py_in k (JStr t) = Inr (contains_text k t)"
| "py_in k j = Inl TypeError"

text \<open>Python's \<open>x[key]\<close> for a string key: only a dict can answer.\<close>

fun py_getitem :: "json \<Rightarrow> string \<Rightarrow> py_error + json" where
  "py_getitem (JObj kvs) k = (case map_of kvs k of None \<Rightarrow> Inl KeyError | Some v \<Rightarrow> Inr v)"
| "py_getitem j k = Inl TypeError"

text \<open>
  \<open>base64.b64decode\<close> on a value taken from the document: a string must be ASCII, any
  other JSON value is not bytes-like.
\<close>

fun b64decode_value :: "json \<Rightarrow> py_error + bytes" where
  "b64decode_value (JStr t) =
     (if list_all (\<lambda>c. (of_char c :: nat) < 128) t
      then (case b64decode t of None \<Rightarrow> Inl BinasciiError | Some b \<Rightarrow> Inr b)
      else Inl ValueError)"
| "b64decode_value j = Inl TypeError"

text \<open>The statements under \<open>json_data = json.loads(response_data)\<close>.\<close>

definition handle_document :: "json \<Rightarrow> session \<Rightarrow> py_error + session" where
  "handle_document json_data s =
     (case py_in ''event'' json_data of
        Inl x \<Rightarrow> Inl x
      | Inr False \<Rightarrow> Inr s
      | Inr True \<Rightarrow>
         (case py_getitem json_data ''event'' of
            Inl x \<Rightarrow> Inl x
          | Inr ev \<Rightarrow>
             (case py_in ''audioOutput'' ev of
                Inl x \<Rightarrow> Inl x
              | Inr False \<Rightarrow> Inr s
              | Inr True \<Rightarrow>
                 (case py_getitem ev ''audioOutput'' of
                    Inl x \<Rightarrow> Inl x
                  | Inr ao \<Rightarrow>
                     (case py_getitem ao ''content'' of
                        Inl x \<Rightarrow> Inl x
                      | Inr audio_content \<Rightarrow>
                         (case b64decode_value audio_content of
                            Inl x \<Rightarrow> Inl x
                          | Inr ab \<Rightarrow>
                              Inr (s\<lparr>audio_output_queue := audio_output_queue s @ [ab]\<rparr>)))))))"

text \<open>
  One turn of the loop body: \<open>True\<close> when the loop goes on to test \<open>is_active\<close> again,
  \<open>False\<close> when it is left (by \<open>break\<close> or by an exception no handler of the loop
  catches).  Only \<open>json.JSONDecodeError\<close> is passed over; every other exception of the
  decoding reaches the handler that prints and breaks.
\<close>

fun handle_received :: "received \<Rightarrow> session \<Rightarrow> bool \<times> session" where
  "handle_received StopAsyncIteration s = (False, s)"
| "handle_received ReceiveError s = (False, s)"
| "handle_received CancelledError s = (False, s)"
| "handle_received NoBytes s = (True, s)"
| "handle_received UnicodeDecodeError s = (False, s)"
| "handle_received JSONDecodeError s = (True, s)"
| "handle_received (Document j) s =
     (case handle_document j s of Inl x \<Rightarrow> (False, s) | Inr s' \<Rightarrow> (True, s'))"

text \<open>
  \<open>RespLoopHead\<close> is the loop about to test \<open>is_active\<close>, \<open>RespAwaitReceive\<close> the loop
  suspended in its awaits, \<open>RespDone\<close> the coroutine returned.  The argument is what
  the stream delivers at this turn, \<open>None\<close> when it has delivered nothing yet.  However
  the loop is left, the \<open>finally\<close> clause clears \<open>is_active\<close>.
\<close>

datatype resp_pc = RespLoopHead | RespAwaitReceive | RespDone

definition resp_deliver :: "received option \<Rightarrow> session \<Rightarrow> resp_pc \<times> session" where
  "resp_deliver r s =
     (case r of
        None \<Rightarrow> (RespAwaitReceive, s)
      | Some m \<Rightarrow>
          (case handle_received m s of
             (True, s') \<Rightarrow> (RespLoopHead, s')
           | (False, s') \<Rightarrow> (RespDone, s'\<lparr>is_active := False\<rparr>)))"

fun process_responses :: "received option \<Rightarrow> resp_pc \<times> session \<Rightarrow> resp_pc \<times> session" where
  "process_responses r (RespDone, s) = (RespDone, s)"
| "process_responses r (RespLoopHead, s) =
     (if \<not> is_active s then (RespDone, s\<lparr>is_active := False\<rparr>) else resp_deliver r s)"
| "process_responses r (RespAwaitReceive, s) = resp_deliver r s"

text \<open>The loop fed the messages of a list, one a turn, with no other activity in between.\<close>

fun resp_run :: "received list \<Rightarrow> resp_pc \<times> session \<Rightarrow> resp_pc \<times> session" where
  "resp_run [] st = st"
| "resp_run (m # ms) st = resp_run ms (process_responses (Some m) st)"

section \<open>The playback loop \<open>play_output_audio\<close>\<close>

text \<open>
  The dequeue is \<open>asyncio.wait_for(..., timeout=0.1)\<close>: a turn that finds the queue
  empty suspends (\<open>PlayAwaitGet\<close>), and the next turn either takes what has arrived or
  times out and goes back to test \<open>is_active\<close>.
\<close>

datatype play_pc = PlayLoopHead | PlayAwaitGet | PlayDone

definition play_data :: "env \<Rightarrow> bytes \<Rightarrow> session \<Rightarrow> session" where
  "play_data e audio_data s =
     (if audio_data \<noteq> [] \<and> is_active s \<and> output_stream s \<noteq> None
      then s\<lparr>writes := writes s @ [(audio_data, write_ok e (length (writes s)))]\<rparr>
      else s)"

fun play_output_audio :: "env \<Rightarrow> bool \<Rightarrow> play_pc \<times> session \<Rightarrow> play_pc \<times> session" where
  "play_output_audio e cancelled (PlayDone, s) = (PlayDone, s)"
| "play_output_audio e cancelled (PlayLoopHead, s) =
     (if cancelled then (PlayDone, s)
      else if \<not> is_active s then (PlayDone, s)
      else (case audio_output_queue s of
              [] \<Rightarrow> (PlayAwaitGet, s)
            | d # q \<Rightarrow> (PlayLoopHead, play_data e d (s\<lparr>audio_output_queue := q\<rparr>))))"
| "play_output_audio e cancelled (PlayAwaitGet, s) =
     (if cancelled then (PlayDone, s)
      else (case audio_output_queue s of
              [] \<Rightarrow> (PlayLoopHead, s)
            | d # q \<Rightarrow> (PlayLoopHead, play_data e d (s\<lparr>audio_output_queue := q\<rparr>))))"

fun play_run :: "env \<Rightarrow> nat \<Rightarrow> play_pc \<times> session \<Rightarrow> play_pc \<times> session" where
  "play_run e 0 st = st"
| "play_run e (Suc n) st = play_run e n (play_output_audio e False st)"

section \<open>\<open>stop_conversation\<close> and the caller's view\<close>

text \<open>
  \<open>setup_audio_streams\<close>: the input stream is opened first, then the output stream, both
  started; the first \<open>p.open\<close> that raises ends the method in its handler, which prints.
\<close>

definition setup_audio_streams :: "env \<Rightarrow> session \<Rightarrow> session" where
  "setup_audio_streams e s =
     (if \<not> pa_open_ok e (pa_opens s) then s\<lparr>pa_opens := Suc (pa_opens s)\<rparr>
      else
        let s1 = s\<lparr>input_stream := Some (PaStream True False), pa_opens := Suc (pa_opens s)\<rparr>
        in if \<not> pa_open_ok e (pa_opens s1) then s1\<lparr>pa_opens := Suc (pa_opens s1)\<rparr>
           else s1\<lparr>output_stream := Some (PaStream True False),
                   pa_opens := Suc (pa_opens s1)\<rparr>)"

text \<open>
  The statements \<open>if stream: if stream.is_active(): stream.stop_stream(); stream.close()\<close>
  on one of the two PyAudio streams.  PyAudio's \<open>is_active()\<close> raises \<open>OSError\<close> on a
  stream that has been closed; on an open one it tells whether the stream runs, a running
  stream is stopped, and the stream is closed.
\<close>

definition close_pa_stream :: "pa_stream option \<Rightarrow> py_exception + pa_stream option" where
  "close_pa_stream d =
     (case d of
        None \<Rightarrow> Inr None
      | Some (PaStream running closed) \<Rightarrow>
          if closed then Inl OSError
          else Inr (Some (PaStream (if running then False else running) True)))"

text \<open>
  \<open>stop_conversation\<close> has no \<open>try\<close>: an exception of a PyAudio stream or of the
  stream's \<open>close\<close> leaves it at that statement.
\<close>

definition stop_conversation :: "env \<Rightarrow> session \<Rightarrow> (py_exception + unit) \<times> session" where
  "stop_conversation e s =
     (let s1 = s\<lparr>is_active := False\<rparr>;
          s2 = send_audio_content_end e s1
      in case close_pa_stream (input_stream s2) of
           Inl x \<Rightarrow> (Inl x, s2)
         | Inr i \<Rightarrow>
            (let s3 = s2\<lparr>input_stream := i\<rparr>
             in case close_pa_stream (output_stream s3) of
                  Inl x \<Rightarrow> (Inl x, s3)
                | Inr out \<Rightarrow>
                   (let s4 = s3\<lparr>output_stream := out\<rparr>;
                        s5 = s4\<lparr>pa_terminations := Suc (pa_terminations s4)\<rparr>
                    in case stream_response s5 of
                         None \<Rightarrow> (Inr (), s5)
                       | Some sid \<Rightarrow>
                           (if close_ok e (length (closes s5)) then Inr ()
                            else Inl StreamCloseError,
                            s5\<lparr>closes := closes s5 @ [sid]\<rparr>))))"

text \<open>
  A call on the session from outside, or one turn of an outbound loop found at any of its
  program counters.  \<open>initialize_stream\<close> and \<open>stop_conversation\<close> appear with their
  result dropped, as a caller that catches the exception sees them.
\<close>

datatype call =
    InitializeStream
  | SendAudioContentStart
  | SendAudioContentEnd
  | AddAudioChunk bytes
  | InputCallback bytes
  | StopConversation
  | SetupAudioStreams
  | ProcessAudioInput pump_pc

fun do_call :: "env \<Rightarrow> call \<Rightarrow> session \<Rightarrow> session" where
  "do_call e InitializeStream s = snd (initialize_stream e s)"
| "do_call e SendAudioContentStart s = send_audio_content_start e s"
| "do_call e SendAudioContentEnd s = send_audio_content_end e s"
| "do_call e (AddAudioChunk ab) s = add_audio_chunk ab s"
| "do_call e (InputCallback ab) s = input_callback ab s"
| "do_call e StopConversation s = snd (stop_conversation e s)"
| "do_call e SetupAudioStreams s = setup_audio_streams e s"
| "do_call e (ProcessAudioInput pc) s = snd (process_audio_input e False (pc, s))"

fun run_calls :: "env \<Rightarrow> call list \<Rightarrow> session \<Rightarrow> session" where
  "run_calls e [] s = s"
| "run_calls e (c # cs) s = run_calls e cs (do_call e c s)"

section \<open>Observations and reference inputs\<close>

text \<open>The documents and outcomes of the sends that went to stream \<open>k\<close>, in order.\<close>

definition sent_on :: "nat \<Rightarrow> session \<Rightarrow> (json \<times> bool) list" where
  "sent_on k s = map snd (filter (\<lambda>x. fst x = k) (sends s))"

text \<open>The documents of the sends that succeeded, in order.\<close>

definition delivered :: "session \<Rightarrow> json list" where
  "delivered s = map (fst \<circ> snd) (filter (snd \<circ> snd) (sends s))"

text \<open>
  Reading a wire document \<open>{"event": {name: {fields}}}\<close>: the name of its variant, and a
  field of the variant's body.
\<close>

definition event_name :: "json \<Rightarrow> string option" where
  "event_name j =
     (case py_getitem j ''event'' of
        Inr (JObj [(name, body)]) \<Rightarrow> Some name
      | _ \<Rightarrow> None)"

definition event_field :: "json \<Rightarrow> string \<Rightarrow> json option" where
  "event_field j f =
     (case py_getitem j ''event'' of
        Inr (JObj [(name, body)]) \<Rightarrow>
          (case py_getitem body f of Inl x \<Rightarrow> None | Inr v \<Rightarrow> Some v)
      | _ \<Rightarrow> None)"

text \<open>
  The content field of an \<open>audioInput\<close> document, read with the same subscripts the
  inbound loop uses for \<open>audioOutput\<close>.
\<close>

definition audio_input_content :: "json \<Rightarrow> py_error + json" where
  "audio_input_content j =
     (case py_getitem j ''event'' of
        Inl x \<Rightarrow> Inl x
      | Inr ev \<Rightarrow>
         (case py_getitem ev ''audioInput'' of
            Inl x \<Rightarrow> Inl x
          | Inr ai \<Rightarrow> py_getitem ai ''content''))"

text \<open>The least document the inbound loop decodes audio from.\<close>

definition audio_output_event :: "json \<Rightarrow> json" where
  "audio_output_event audio_content =
     JObj [(''event'', JObj [(''audioOutput'', JObj [(''content'', audio_content)])])]"

text \<open>
  Collaborators that never fail; a transport on which every send raises; and one on which
  only the third send raises.
\<close>

definition good_env :: env where
  "good_env =
     \<lparr>client_ok = (\<lambda>n. True), open_ok = (\<lambda>n. True), send_ok = (\<lambda>n. True),
      write_ok = (\<lambda>n. True), pa_open_ok = (\<lambda>n. True), close_ok = (\<lambda>n. True)\<rparr>"

definition dead_transport :: env where
  "dead_transport =
     \<lparr>client_ok = (\<lambda>n. True), open_ok = (\<lambda>n. True), send_ok = (\<lambda>n. False),
      write_ok = (\<lambda>n. True), pa_open_ok = (\<lambda>n. True), close_ok = (\<lambda>n. True)\<rparr>"

definition third_send_fails :: env where
  "third_send_fails =
     \<lparr>client_ok = (\<lambda>n. True), open_ok = (\<lambda>n. True), send_ok = (\<lambda>n. n \<noteq> 2),
      write_ok = (\<lambda>n. True), pa_open_ok = (\<lambda>n. True), close_ok = (\<lambda>n. True)\<rparr>"

text \<open>
  A session as \<open>__init__\<close> leaves it; the same after a successful \<open>initialize_stream\<close>;
  after \<open>send_audio_content_start\<close> on that; and after \<open>stop_conversation\<close> on the
  initialised session.
\<close>

definition demo_session :: session where
  "demo_session = new_session good_env ''matthew'' ''prompt-1'' ''content-1'' ''audio-1''"

definition live_session :: session where
  "live_session = snd (initialize_stream good_env demo_session)"

definition turn_open_session :: session where
  "turn_open_session = send_audio_content_start good_env live_session"

definition stopped_session :: session where
  "stopped_session = snd (stop_conversation good_env live_session)"

text \<open>
  The initialised session with its PyAudio streams set up, as \<open>start_conversation\<close> has
  it before it waits for the user.
\<close>

definition audio_session :: session where
  "audio_session = setup_audio_streams good_env live_session"

text \<open>The initialised session with two captured chunks waiting in the queue.\<close>

definition capturing_session :: session where
  "capturing_session = add_audio_chunk [4, 5] (add_audio_chunk [1, 2, 3] live_session)"

section \<open>Sending and the handshake\<close>

lemma send_raw_event_active:
  "stream_response s = Some k \<Longrightarrow> is_active s \<Longrightarrow>
   send_raw_event e j s = s\<lparr>sends := sends s @ [(k, j, send_ok e (length (sends s)))]\<rparr>"
  by (simp add: send_raw_event_def)

lemma send_raw_event_inactive: "\<not> is_active s \<Longrightarrow> send_raw_event e j s = s"
  by (simp add: send_raw_event_def split: option.splits)

lemma send_raw_event_no_stream: "stream_response s = None \<Longrightarrow> send_raw_event e j s = s"
  by (simp add: send_raw_event_def)

lemma send_raw_event_same [simp]:
  "stream_response (send_raw_event e j s) = stream_response s"
  "is_active (send_raw_event e j s) = is_active s"
  "stream_opens (send_raw_event e j s) = stream_opens s"
  by (auto simp: send_raw_event_def split: option.splits)

lemma send_initialization_events_active:
  assumes "stream_response s = Some k" and "is_active s"
  shows "send_initialization_events e s =
         s\<lparr>sends := sends s @
            [(k, session_start, send_ok e (length (sends s))),
             (k, prompt_start s, send_ok e (length (sends s) + 1)),
             (k, content_start_system s, send_ok e (length (sends s) + 2)),
             (k, system_message s, send_ok e (length (sends s) + 3)),
             (k, content_end_system s, send_ok e (length (sends s) + 4))]\<rparr>"
  using assms
  by (simp add: send_initialization_events_def send_raw_event_active eval_nat_numeral
      prompt_start_def content_start_system_def system_message_def content_end_system_def)

text \<open>What \<open>initialize_stream\<close> does once it has a client and the invocation succeeds.\<close>

lemma initialize_stream_ok:
  assumes "bedrock_client s \<or> client_ok e (client_attempts s)" and "open_ok e (stream_opens s)"
  shows "initialize_stream e s =
     (Inr (), (if bedrock_client s then s else initialize_client e s)
        \<lparr>stream_response := Some (stream_opens s), stream_opens := Suc (stream_opens s),
         is_active := True,
         sends := sends s @
            [(stream_opens s, session_start, send_ok e (length (sends s))),
             (stream_opens s, prompt_start s, send_ok e (length (sends s) + 1)),
             (stream_opens s, content_start_system s, send_ok e (length (sends s) + 2)),
             (stream_opens s, system_message s, send_ok e (length (sends s) + 3)),
             (stream_opens s, content_end_system s, send_ok e (length (sends s) + 4))],
         tasks := tasks s @ [(ProcessResponsesTask, length (sends s) + 5),
                             (ProcessAudioInputTask, length (sends s) + 5)]\<rparr>)"
  using assms
  by (auto simp add: initialize_stream_def Let_def send_initialization_events_active
       initialize_client_def prompt_start_def content_start_system_def system_message_def
       content_end_system_def)

lemma initialize_stream_Inr_iff:
  "fst (initialize_stream e s) = Inr () \<longleftrightarrow>
   (bedrock_client s \<or> client_ok e (client_attempts s)) \<and> open_ok e (stream_opens s)"
  by (auto simp add: initialize_stream_def Let_def initialize_client_def)


text \<open>
  \<open>stop_conversation\<close> sends nothing, whether it returns or raises: it leaves the session
  inactive and touches only the PyAudio streams and the logs of the teardown calls.
\<close>

lemma stop_conversation_frame:
  "\<not> is_active (snd (stop_conversation e s)) \<and>
   sends (snd (stop_conversation e s)) = sends s \<and>
   tasks (snd (stop_conversation e s)) = tasks s \<and>
   stream_response (snd (stop_conversation e s)) = stream_response s \<and>
   stream_opens (snd (stop_conversation e s)) = stream_opens s \<and>
   bedrock_client (snd (stop_conversation e s)) = bedrock_client s \<and>
   client_attempts (snd (stop_conversation e s)) = client_attempts s \<and>
   voice_id (snd (stop_conversation e s)) = voice_id s \<and>
   prompt_name (snd (stop_conversation e s)) = prompt_name s \<and>
   content_name (snd (stop_conversation e s)) = content_name s \<and>
   audio_content_name (snd (stop_conversation e s)) = audio_content_name s \<and>
   audio_input_queue (snd (stop_conversation e s)) = audio_input_queue s \<and>
   audio_output_queue (snd (stop_conversation e s)) = audio_output_queue s"
  by (cases "close_pa_stream (input_stream s)"; cases "close_pa_stream (output_stream s)";
      cases "stream_response s")
     (simp_all add: stop_conversation_def Let_def send_audio_content_end_def
       send_raw_event_inactive)

text \<open>The whole of \<open>stop_conversation\<close> on a session with no PyAudio stream.\<close>

lemma stop_conversation_no_audio:
  assumes "input_stream s = None" and "output_stream s = None"
  shows "stop_conversation e s =
     (if stream_response s = None \<or> close_ok e (length (closes s)) then Inr ()
      else Inl StreamCloseError,
      s\<lparr>is_active := False, input_stream := None, output_stream := None,
        pa_terminations := Suc (pa_terminations s),
        closes := closes s @ (case stream_response s of None \<Rightarrow> [] | Some k \<Rightarrow> [k])\<rparr>)"
  using assms
  by (cases "stream_response s")
     (simp_all add: stop_conversation_def Let_def send_audio_content_end_def
       send_raw_event_inactive close_pa_stream_def)

lemma setup_audio_streams_frame:
  "is_active (setup_audio_streams e s) = is_active s \<and>
   sends (setup_audio_streams e s) = sends s \<and>
   tasks (setup_audio_streams e s) = tasks s \<and>
   stream_response (setup_audio_streams e s) = stream_response s \<and>
   stream_opens (setup_audio_streams e s) = stream_opens s \<and>
   bedrock_client (setup_audio_streams e s) = bedrock_client s \<and>
   client_attempts (setup_audio_streams e s) = client_attempts s \<and>
   voice_id (setup_audio_streams e s) = voice_id s \<and>
   prompt_name (setup_audio_streams e s) = prompt_name s \<and>
   content_name (setup_audio_streams e s) = content_name s \<and>
   audio_content_name (setup_audio_streams e s) = audio_content_name s"
  by (simp add: setup_audio_streams_def Let_def)

lemma pump_frame_inactive: "\<not> is_active s \<Longrightarrow> pump_frame e d s = s"
  by (simp add: pump_frame_def send_raw_event_inactive)

lemma pump_frame_no_stream: "stream_response s = None \<Longrightarrow> pump_frame e d s = s"
  by (simp add: pump_frame_def send_raw_event_no_stream)

text \<open>
  Without a stream, or with \<open>is_active\<close> false, a turn of the outbound loop changes at
  most the capture queue.
\<close>

lemma process_audio_input_quiet:
  assumes "\<not> is_active s \<or> stream_response s = None"
  shows "\<exists>q. snd (process_audio_input e c (pc, s)) = s\<lparr>audio_input_queue := q\<rparr>"
proof -
  have g: "\<exists>q. snd (pump_get e s) = s\<lparr>audio_input_queue := q\<rparr>"
  proof (cases "audio_input_queue s")
    case Nil
    then show ?thesis by (auto simp: pump_get_def intro: exI[of _ "[]"])
  next
    case (Cons d q)
    have "pump_frame e d (s\<lparr>audio_input_queue := q\<rparr>) = s\<lparr>audio_input_queue := q\<rparr>"
      using assms by (auto simp: pump_frame_inactive pump_frame_no_stream)
    then show ?thesis using Cons by (auto simp: pump_get_def)
  qed
  show ?thesis
    using g by (cases pc) (auto intro: exI[of _ "audio_input_queue s"])
qed

text \<open>
  In such a session no call but \<open>initialize_stream\<close> sends, creates a task, opens a
  stream, activates the session or touches its configuration.
\<close>

lemma do_call_quiet:
  assumes "c \<noteq> InitializeStream" and "\<not> is_active s \<or> stream_response s = None"
  shows "sends (do_call e c s) = sends s \<and> tasks (do_call e c s) = tasks s \<and>
         stream_response (do_call e c s) = stream_response s \<and>
         (is_active (do_call e c s) \<longrightarrow> is_active s) \<and>
         stream_opens (do_call e c s) = stream_opens s \<and>
         bedrock_client (do_call e c s) = bedrock_client s \<and>
         client_attempts (do_call e c s) = client_attempts s \<and>
         voice_id (do_call e c s) = voice_id s \<and>
         prompt_name (do_call e c s) = prompt_name s \<and>
         content_name (do_call e c s) = content_name s \<and>
         audio_content_name (do_call e c s) = audio_content_name s"
proof (cases c)
  case InitializeStream
  then show ?thesis using assms by simp
next
  case SendAudioContentStart
  then show ?thesis using assms
    by (auto simp: send_audio_content_start_def send_raw_event_inactive send_raw_event_no_stream)
next
  case SendAudioContentEnd
  then show ?thesis using assms
    by (auto simp: send_audio_content_end_def send_raw_event_inactive send_raw_event_no_stream)
next
  case (AddAudioChunk ab)
  then show ?thesis by (simp add: add_audio_chunk_def)
next
  case (InputCallback ab)
  then show ?thesis by (simp add: input_callback_def add_audio_chunk_def)
next
  case StopConversation
  then show ?thesis using stop_conversation_frame[of e s] by simp
next
  case SetupAudioStreams
  then show ?thesis using setup_audio_streams_frame[of e s] by simp
next
  case (ProcessAudioInput pc)
  obtain q where "snd (process_audio_input e False (pc, s)) = s\<lparr>audio_input_queue := q\<rparr>"
    using process_audio_input_quiet[OF assms(2)] by blast
  then show ?thesis using ProcessAudioInput by simp
qed

lemma run_calls_quiet:
  assumes "InitializeStream \<notin> set cs" and "\<not> is_active s \<or> stream_response s = None"
  shows "sends (run_calls e cs s) = sends s \<and> tasks (run_calls e cs s) = tasks s \<and>
         stream_response (run_calls e cs s) = stream_response s \<and>
         (is_active (run_calls e cs s) \<longrightarrow> is_active s) \<and>
         stream_opens (run_calls e cs s) = stream_opens s \<and>
         bedrock_client (run_calls e cs s) = bedrock_client s \<and>
         client_attempts (run_calls e cs s) = client_attempts s \<and>
         voice_id (run_calls e cs s) = voice_id s \<and>
         prompt_name (run_calls e cs s) = prompt_name s \<and>
         content_name (run_calls e cs s) = content_name s \<and>
         audio_content_name (run_calls e cs s) = audio_content_name s"
  using assms
proof (induction cs arbitrary: s)
  case Nil
  then show ?case by simp
next
  case (Cons c cs)
  have c: "c \<noteq> InitializeStream" and cs: "InitializeStream \<notin> set cs"
    using Cons.prems(1) by auto
  note q = do_call_quiet[OF c Cons.prems(2), of e]
  have "\<not> is_active (do_call e c s) \<or> stream_response (do_call e c s) = None"
    using q Cons.prems(2) by auto
  from Cons.IH[OF cs this] q show ?case by simp
qed

subsection \<open>The reference sessions, evaluated\<close>

lemma demo_session_eq:
  "demo_session =
    \<lparr>voice_id = ''matthew'', bedrock_client = True, stream_response = None, is_active = False,
     audio_input_queue = [], audio_output_queue = [],
     prompt_name = ''prompt-1'', content_name = ''content-1'', audio_content_name = ''audio-1'',
     input_stream = None, output_stream = None,
     client_attempts = 1, stream_opens = 0, sends = [], closes = [], tasks = [],
     writes = [], pa_terminations = 0, pa_opens = 0\<rparr>"
  by (simp add: demo_session_def new_session_def initialize_client_def good_env_def)

lemma live_session_eq:
  "live_session =
    \<lparr>voice_id = ''matthew'', bedrock_client = True, stream_response = Some 0, is_active = True,
     audio_input_queue = [], audio_output_queue = [],
     prompt_name = ''prompt-1'', content_name = ''content-1'', audio_content_name = ''audio-1'',
     input_stream = None, output_stream = None,
     client_attempts = 1, stream_opens = 1,
     sends = [(0, session_start, True), (0, prompt_start demo_session, True),
              (0, content_start_system demo_session, True), (0, system_message demo_session, True),
              (0, content_end_system demo_session, True)],
     closes = [], tasks = [(ProcessResponsesTask, 5), (ProcessAudioInputTask, 5)],
     writes = [], pa_terminations = 0, pa_opens = 0\<rparr>"
proof -
  have "bedrock_client demo_session" "open_ok good_env (stream_opens demo_session)"
    by (simp_all add: demo_session_eq good_env_def)
  then show ?thesis
    unfolding live_session_def
    by (simp add: initialize_stream_ok) (simp add: demo_session_eq good_env_def)
qed

lemma live_session_fields:
  "is_active live_session" "stream_response live_session = Some 0"
  "audio_input_queue live_session = []" "audio_output_queue live_session = []"
  "length (sends live_session) = 5" "closes live_session = []"
  "stream_opens live_session = 1" "output_stream live_session = None"
  "input_stream live_session = None" "pa_terminations live_session = 0"
  by (simp_all add: live_session_eq)

lemma turn_open_session_eq:
  "turn_open_session =
     live_session\<lparr>sends := sends live_session @ [(0, content_start live_session, True)]\<rparr>"
  by (simp add: turn_open_session_def send_audio_content_start_def
      send_raw_event_active[OF live_session_fields(2) live_session_fields(1)] good_env_def)

lemma capturing_session_eq:
  "capturing_session =
     live_session\<lparr>audio_input_queue :=
       [QueueItem [1, 2, 3] ''prompt-1'' ''audio-1'', QueueItem [4, 5] ''prompt-1'' ''audio-1'']\<rparr>"
  by (simp add: capturing_session_def add_audio_chunk_def live_session_eq)

subsection \<open>The handshake\<close>

lemma handshake_event_names:
  "event_name session_start = Some ''sessionStart''"
  "event_name (prompt_start s) = Some ''promptStart''"
  "event_name (content_start_system s) = Some ''contentStart''"
  "event_name (system_message s) = Some ''textInput''"
  "event_name (content_end_system s) = Some ''contentEnd''"
  by (simp_all add: event_name_def session_start_def prompt_start_def content_start_system_def
      system_message_def content_end_system_def)

lemma handshake_event_fields:
  "event_field (prompt_start s) ''promptName'' = Some (JStr (prompt_name s))"
  "event_field (prompt_start s) ''audioOutputConfiguration'' =
     Some (JObj [(''mediaType'', JStr ''audio/lpcm''), (''sampleRateHertz'', JInt 24000),
                 (''sampleSizeBits'', JInt 16), (''channelCount'', JInt 1),
                 (''voiceId'', JStr (voice_id s)), (''encoding'', JStr ''base64''),
                 (''audioType'', JStr ''SPEECH'')])"
  "event_field (content_start_system s) ''type'' = Some (JStr ''TEXT'')"
  "event_field (content_start_system s) ''role'' = Some (JStr ''SYSTEM'')"
  "event_field (content_start_system s) ''promptName'' = Some (JStr (prompt_name s))"
  "event_field (content_start_system s) ''contentName'' = Some (JStr (content_name s))"
  "event_field (system_message s) ''contentName'' = Some (JStr (content_name s))"
  "event_field (system_message s) ''content'' =
     Some (JStr ''You are a helpful voice assistant. Greet the user and wait for their question.'')"
  "event_field (content_end_system s) ''contentName'' = Some (JStr (content_name s))"
  by (simp_all add: event_field_def prompt_start_def content_start_system_def
      system_message_def content_end_system_def)

text \<open>The send log of a returning first \<open>initialize_stream\<close>, in the terms of the source.\<close>

lemma first_initialize_stream:
  assumes "InitializeStream \<notin> set cs"
    and "initialize_stream e (run_calls e cs (new_session e voice pn cn acn)) = (Inr (), s')"
  shows "sends s' =
           [(0, session_start, send_ok e 0), (0, prompt_start s', send_ok e 1),
            (0, content_start_system s', send_ok e 2), (0, system_message s', send_ok e 3),
            (0, content_end_system s', send_ok e 4)] \<and>
         tasks s' = [(ProcessResponsesTask, 5), (ProcessAudioInputTask, 5)] \<and>
         is_active s' \<and> stream_response s' = Some 0 \<and>
         voice_id s' = voice \<and> prompt_name s' = pn \<and> content_name s' = cn"
proof -
  let ?n = "new_session e voice pn cn acn"
  let ?s = "run_calls e cs ?n"
  have n: "stream_response ?n = None" "sends ?n = []" "tasks ?n = []" "stream_opens ?n = 0"
    "voice_id ?n = voice" "prompt_name ?n = pn" "content_name ?n = cn"
    by (simp_all add: new_session_def initialize_client_def)
  have q: "sends ?s = []" "tasks ?s = []" "stream_opens ?s = 0"
    "voice_id ?s = voice" "prompt_name ?s = pn" "content_name ?s = cn"
    using run_calls_quiet[OF assms(1), of ?n e] n by simp_all
  have "fst (initialize_stream e ?s) = Inr ()"
    using assms(2) by simp
  then have ok: "bedrock_client ?s \<or> client_ok e (client_attempts ?s)"
    "open_ok e (stream_opens ?s)"
    by (simp_all add: initialize_stream_Inr_iff)
  have s': "s' = snd (initialize_stream e ?s)"
    using assms(2) by simp
  show ?thesis
    unfolding s' initialize_stream_ok[OF ok]
    by (cases "bedrock_client ?s")
       (simp_all add: q prompt_start_def content_start_system_def system_message_def
        content_end_system_def initialize_client_def numeral_2_eq_2)
qed

text \<open>
  Claim C1, as the code has it.  On a session as \<open>__init__\<close> made it, whatever its
  configuration and whatever calls other than \<open>initialize_stream\<close> came before, an
  \<open>initialize_stream\<close> that returns has called the transport's send exactly five times,
  all on the stream just opened, with the documents \<open>sessionStart\<close>, \<open>promptStart\<close>
  (carrying the prompt name and the configured voice), \<open>contentStart\<close> of type TEXT and
  role SYSTEM, \<open>textInput\<close> with the system prompt and \<open>contentEnd\<close>, the last three
  under the system content name, in this order.  Nothing was sent before them, and both
  background tasks, so also the one that sends audio, are created when the five sends have
  been made.  Each of the five events is sent exactly when the transport accepts its send:
  all five are when none fails.
\<close>

theorem initialize_stream_handshake:
  assumes "InitializeStream \<notin> set cs"
    and "initialize_stream e (run_calls e cs (new_session e voice pn cn acn)) = (Inr (), s')"
  shows "map fst (sends s') = [0, 0, 0, 0, 0] \<and>
         map (event_name \<circ> fst \<circ> snd) (sends s') =
           [Some ''sessionStart'', Some ''promptStart'', Some ''contentStart'',
            Some ''textInput'', Some ''contentEnd''] \<and>
         map (snd \<circ> snd) (sends s') =
           [send_ok e 0, send_ok e 1, send_ok e 2, send_ok e 3, send_ok e 4] \<and>
         event_field (fst (snd (sends s' ! 1))) ''promptName'' = Some (JStr pn) \<and>
         event_field (fst (snd (sends s' ! 1))) ''audioOutputConfiguration'' =
           Some (JObj [(''mediaType'', JStr ''audio/lpcm''), (''sampleRateHertz'', JInt 24000),
                       (''sampleSizeBits'', JInt 16), (''channelCount'', JInt 1),
                       (''voiceId'', JStr voice), (''encoding'', JStr ''base64''),
                       (''audioType'', JStr ''SPEECH'')]) \<and>
         event_field (fst (snd (sends s' ! 2))) ''type'' = Some (JStr ''TEXT'') \<and>
         event_field (fst (snd (sends s' ! 2))) ''role'' = Some (JStr ''SYSTEM'') \<and>
         event_field (fst (snd (sends s' ! 2))) ''promptName'' = Some (JStr pn) \<and>
         event_field (fst (snd (sends s' ! 2))) ''contentName'' = Some (JStr cn) \<and>
         event_field (fst (snd (sends s' ! 3))) ''contentName'' = Some (JStr cn) \<and>
         event_field (fst (snd (sends s' ! 3))) ''content'' =
           Some (JStr
             ''You are a helpful voice assistant. Greet the user and wait for their question.'') \<and>
         event_field (fst (snd (sends s' ! 4))) ''contentName'' = Some (JStr cn) \<and>
         tasks s' = [(ProcessResponsesTask, 5), (ProcessAudioInputTask, 5)] \<and>
         is_active s' \<and>
         (send_ok e 0 \<and> send_ok e 1 \<and> send_ok e 2 \<and> send_ok e 3 \<and> send_ok e 4 \<longrightarrow>
            delivered s' = map (fst \<circ> snd) (sends s'))"
proof -
  note f = first_initialize_stream[OF assms]
  have l: "sends s' =
           [(0, session_start, send_ok e 0), (0, prompt_start s', send_ok e 1),
            (0, content_start_system s', send_ok e 2), (0, system_message s', send_ok e 3),
            (0, content_end_system s', send_ok e 4)]"
    using f by blast
  have c: "voice_id s' = voice" "prompt_name s' = pn" "content_name s' = cn"
    "tasks s' = [(ProcessResponsesTask, 5), (ProcessAudioInputTask, 5)]" "is_active s'"
    using f by blast+
  have n: "map (event_name \<circ> fst \<circ> snd) (sends s') =
           [Some ''sessionStart'', Some ''promptStart'', Some ''contentStart'',
            Some ''textInput'', Some ''contentEnd'']"
    unfolding l by (simp add: handshake_event_names)
  have i: "fst (snd (sends s' ! 1)) = prompt_start s'"
    "fst (snd (sends s' ! 2)) = content_start_system s'"
    "fst (snd (sends s' ! 3)) = system_message s'"
    "fst (snd (sends s' ! 4)) = content_end_system s'"
    unfolding l by (simp_all add: eval_nat_numeral)
  have d: "send_ok e 0 \<and> send_ok e 1 \<and> send_ok e 2 \<and> send_ok e 3 \<and> send_ok e 4 \<longrightarrow>
            delivered s' = map (fst \<circ> snd) (sends s')"
    unfolding delivered_def l by simp
  have m: "map fst (sends s') = [0, 0, 0, 0, 0]"
    "map (snd \<circ> snd) (sends s') =
           [send_ok e 0, send_ok e 1, send_ok e 2, send_ok e 3, send_ok e 4]"
    unfolding l by simp_all
  show ?thesis
    unfolding i handshake_event_fields c
    using m n d c(4,5) by simp
qed

text \<open>
  When only the third send raises, \<open>initialize_stream\<close> still returns, and four events
  have been sent: the \<open>textInput\<close> and the \<open>contentEnd\<close> of the system content went out
  with no \<open>contentStart\<close> before them.  The claim as stated fails.
\<close>

theorem initialize_stream_returns_with_four_events_sent:
  "fst (initialize_stream third_send_fails demo_session) = Inr () \<and>
   map event_name (delivered (snd (initialize_stream third_send_fails demo_session))) =
     [Some ''sessionStart'', Some ''promptStart'', Some ''textInput'', Some ''contentEnd'']"
proof -
  have ok: "bedrock_client demo_session \<or>
            client_ok third_send_fails (client_attempts demo_session)"
    "open_ok third_send_fails (stream_opens demo_session)"
    by (simp_all add: demo_session_eq third_send_fails_def)
  have s: "sends demo_session = []"
    by (simp add: demo_session_eq)
  show ?thesis
    unfolding initialize_stream_ok[OF ok]
    by (simp add: s delivered_def third_send_fails_def handshake_event_names)
qed

theorem initialize_stream_handshake_witness:
  "map (event_name \<circ> fst \<circ> snd) (sends live_session) =
     [Some ''sessionStart'', Some ''promptStart'', Some ''contentStart'',
      Some ''textInput'', Some ''contentEnd''] \<and>
   event_field (fst (snd (sends live_session ! 2))) ''role'' = Some (JStr ''SYSTEM'') \<and>
   delivered live_session = map (fst \<circ> snd) (sends live_session) \<and>
   tasks live_session = [(ProcessResponsesTask, 5), (ProcessAudioInputTask, 5)]"
proof -
  have a: "InitializeStream \<notin> set [SendAudioContentStart, SendAudioContentEnd]"
    by simp
  have b: "run_calls good_env [SendAudioContentStart, SendAudioContentEnd]
             (new_session good_env ''matthew'' ''prompt-1'' ''content-1'' ''audio-1'') =
           demo_session"
    by (simp add: demo_session_def[symmetric] send_audio_content_start_def
        send_audio_content_end_def send_raw_event_no_stream demo_session_eq)
  have c: "initialize_stream good_env
             (run_calls good_env [SendAudioContentStart, SendAudioContentEnd]
               (new_session good_env ''matthew'' ''prompt-1'' ''content-1'' ''audio-1'')) =
           (Inr (), live_session)"
    unfolding b live_session_def
    by (rule prod_eqI) (simp_all add: initialize_stream_Inr_iff demo_session_eq good_env_def)
  show ?thesis
    using initialize_stream_handshake[OF a c] by (simp add: good_env_def)
qed




section \<open>Audio turns\<close>




section \<open>The outbound loop\<close>

lemma audio_event_update [simp]:
  "audio_event (s\<lparr>sends := x\<rparr>) = audio_event s"
  "audio_event (s\<lparr>audio_input_queue := q\<rparr>) = audio_event s"
  by (simp_all add: audio_event_def fun_eq_iff)

lemma process_audio_input_frame:
  assumes "is_active s" and "stream_response s = Some k"
    and "audio_input_queue s = d # ds" and "audio_bytes d \<noteq> []"
  shows "process_audio_input e False (PumpLoopHead, s) =
     (PumpLoopHead,
      s\<lparr>audio_input_queue := ds,
        sends := sends s @
          [(k, audio_event s (b64encode (audio_bytes d)), send_ok e (length (sends s)))]\<rparr>)"
  using assms by (simp add: pump_get_def pump_frame_def send_raw_event_active)

text \<open>
  On an active session the loop works through the whole queue, one send a frame, and the
  outcome of a send has no part in what it does next.
\<close>

lemma pump_run_queue:
  assumes "is_active s" and "stream_response s = Some k"
    and "audio_input_queue s = ds" and "list_all (\<lambda>d. audio_bytes d \<noteq> []) ds"
  shows "pump_run e (length ds) (PumpLoopHead, s) =
     (PumpLoopHead,
      s\<lparr>audio_input_queue := [],
        sends := sends s @
          map (\<lambda>(i, d). (k, audio_event s (b64encode (audio_bytes d)), send_ok e i))
            (enumerate (length (sends s)) ds)\<rparr>)"
  using assms
proof (induction ds arbitrary: s)
  case Nil
  then show ?case by simp
next
  case (Cons d ds)
  let ?s1 = "s\<lparr>audio_input_queue := ds,
        sends := sends s @
          [(k, audio_event s (b64encode (audio_bytes d)), send_ok e (length (sends s)))]\<rparr>"
  have step: "process_audio_input e False (PumpLoopHead, s) = (PumpLoopHead, ?s1)"
    using Cons.prems by (intro process_audio_input_frame) simp_all
  have "pump_run e (length ds) (PumpLoopHead, ?s1) =
     (PumpLoopHead,
      ?s1\<lparr>audio_input_queue := [],
        sends := sends ?s1 @
          map (\<lambda>(i, d). (k, audio_event ?s1 (b64encode (audio_bytes d)), send_ok e i))
            (enumerate (length (sends ?s1)) ds)\<rparr>)"
    using Cons.prems by (intro Cons.IH) simp_all
  then show ?case
    unfolding length_Cons pump_run.simps step by simp
qed

text \<open>
  Claim C3, as the code has it.  When the send of a frame raises while the outbound loop
  runs, \<open>_send_raw_event\<close> catches the exception: the failed send is all that happens.
  The session stays active, the loop goes back to its head and sends every frame still
  in the queue.
\<close>

theorem pump_continues_after_failed_send:
  assumes "is_active s" and "stream_response s = Some k"
    and "audio_input_queue s = d # ds" and "audio_bytes d \<noteq> []"
    and "list_all (\<lambda>x. audio_bytes x \<noteq> []) ds"
    and "\<not> send_ok e (length (sends s))"
  shows "pump_run e (Suc (length ds)) (PumpLoopHead, s) =
     (PumpLoopHead,
      s\<lparr>audio_input_queue := [],
        sends := sends s @
          (k, audio_event s (b64encode (audio_bytes d)), False) #
          map (\<lambda>(i, x). (k, audio_event s (b64encode (audio_bytes x)), send_ok e i))
            (enumerate (Suc (length (sends s))) ds)\<rparr>) \<and>
     is_active (snd (pump_run e (Suc (length ds)) (PumpLoopHead, s)))"
proof -
  have "list_all (\<lambda>x. audio_bytes x \<noteq> []) (d # ds)"
    using assms(4,5) by simp
  from pump_run_queue[OF assms(1,2,3) this, of e]
  have r: "pump_run e (Suc (length ds)) (PumpLoopHead, s) =
     (PumpLoopHead,
      s\<lparr>audio_input_queue := [],
        sends := sends s @
          map (\<lambda>(i, d). (k, audio_event s (b64encode (audio_bytes d)), send_ok e i))
            (enumerate (length (sends s)) (d # ds))\<rparr>)"
    unfolding length_Cons .
  show ?thesis
    unfolding r using assms(1,6) by simp
qed

text \<open>
  With every send raising, the loop sends both queued frames, one after the other, and
  the session is still active: the claim as stated fails.
\<close>

theorem pump_keeps_sending_into_dead_transport:
  "fst (pump_run dead_transport 2 (PumpLoopHead, capturing_session)) = PumpLoopHead \<and>
   is_active (snd (pump_run dead_transport 2 (PumpLoopHead, capturing_session))) \<and>
   drop 5 (map (snd \<circ> snd)
     (sends (snd (pump_run dead_transport 2 (PumpLoopHead, capturing_session))))) =
     [False, False]"
proof -
  have c: "is_active capturing_session" "stream_response capturing_session = Some 0"
    "audio_input_queue capturing_session =
       [QueueItem [1, 2, 3] ''prompt-1'' ''audio-1'', QueueItem [4, 5] ''prompt-1'' ''audio-1'']"
    "length (sends capturing_session) = 5"
    by (simp_all add: capturing_session_eq live_session_fields)
  have l: "list_all (\<lambda>d. audio_bytes d \<noteq> [])
       [QueueItem [1, 2, 3] ''prompt-1'' ''audio-1'', QueueItem [4, 5] ''prompt-1'' ''audio-1'']"
    by simp
  have n: "length [QueueItem [1, 2, 3] ''prompt-1'' ''audio-1'',
                   QueueItem [4, 5] ''prompt-1'' ''audio-1''] = 2"
    by simp
  note r = pump_run_queue[OF c(1,2,3) l, of dead_transport, unfolded n]
  show ?thesis
    unfolding r by (simp add: c dead_transport_def)
qed

theorem pump_continues_after_failed_send_witness:
  "fst (pump_run dead_transport 2 (PumpLoopHead, capturing_session)) = PumpLoopHead \<and>
   audio_input_queue (snd (pump_run dead_transport 2 (PumpLoopHead, capturing_session))) = [] \<and>
   length (sends (snd (pump_run dead_transport 2 (PumpLoopHead, capturing_session)))) = 7"
proof -
  have c: "is_active capturing_session" "stream_response capturing_session = Some 0"
    "audio_input_queue capturing_session =
       QueueItem [1, 2, 3] ''prompt-1'' ''audio-1'' # [QueueItem [4, 5] ''prompt-1'' ''audio-1'']"
    "audio_bytes (QueueItem [1, 2, 3] ''prompt-1'' ''audio-1'') \<noteq> []"
    "list_all (\<lambda>d. audio_bytes d \<noteq> []) [QueueItem [4, 5] ''prompt-1'' ''audio-1'']"
    "\<not> send_ok dead_transport (length (sends capturing_session))"
    by (simp_all add: capturing_session_eq live_session_fields dead_transport_def)
  have n: "Suc (length [QueueItem [4, 5] ''prompt-1'' ''audio-1'']) = 2"
    by simp
  note r = pump_continues_after_failed_send[OF c, unfolded n, THEN conjunct1]
  show ?thesis
    unfolding r by (simp add: capturing_session_eq live_session_fields)
qed

text \<open>
  Claim C8, where the code departs from it.  The dequeue of the outbound loop is
  \<open>await self.audio_input_queue.get()\<close> with no timeout.  A loop suspended there on an
  empty queue is resumed by nothing but a new frame or a cancellation: however many turns
  it is given, it stays suspended and never tests \<open>is_active\<close>, also after the session
  was stopped.
\<close>

theorem pump_stays_suspended_on_empty_queue:
  "audio_input_queue s = [] \<Longrightarrow> pump_run e n (PumpAwaitGet, s) = (PumpAwaitGet, s)"
  by (induction n) (simp_all add: pump_get_def)

theorem pump_stays_suspended_on_empty_queue_witness:
  "\<not> is_active stopped_session \<and> audio_input_queue stopped_session = [] \<and>
   pump_run good_env 10 (PumpAwaitGet, stopped_session) = (PumpAwaitGet, stopped_session)"
proof -
  have a: "audio_input_queue stopped_session = []" "\<not> is_active stopped_session"
    using stop_conversation_frame[of good_env live_session]
    by (simp_all add: stopped_session_def live_session_fields)
  show ?thesis
    using pump_stays_suspended_on_empty_queue[OF a(1), of good_env 10] a by simp
qed

section \<open>The inbound loop\<close>

text \<open>
  Claim C4, as the code has it.  The inbound loop counts nothing: a message that fails
  JSON parsing is passed over by \<open>except json.JSONDecodeError: pass\<close>, so after any
  number of such messages in a row the loop is still running, the session is still
  active and nothing else about it has changed.
\<close>

theorem json_errors_are_skipped_without_bound:
  "is_active s \<Longrightarrow> resp_run (replicate n JSONDecodeError) (RespLoopHead, s) = (RespLoopHead, s)"
  by (induction n) (simp_all add: resp_deliver_def)

text \<open>
  Three malformed messages in a row leave the session active and the loop running: with
  a tolerance of two the claim as stated fails.
\<close>

theorem three_malformed_frames_leave_session_active:
  "resp_run [JSONDecodeError, JSONDecodeError, JSONDecodeError] (RespLoopHead, live_session) =
     (RespLoopHead, live_session) \<and> is_active live_session"
  by (simp add: resp_deliver_def live_session_fields)

theorem json_errors_are_skipped_without_bound_witness:
  "is_active live_session \<and>
   resp_run (replicate 100 JSONDecodeError) (RespLoopHead, live_session) =
     (RespLoopHead, live_session)"
  using json_errors_are_skipped_without_bound[of live_session 100]
  by (simp add: live_session_fields)

section \<open>Stopping\<close>

lemma turn_open_session_fields:
  "input_stream turn_open_session = None" "output_stream turn_open_session = None"
  "stream_response turn_open_session = Some 0" "closes turn_open_session = []"
  "length (sends turn_open_session) = 6"
  by (simp_all add: turn_open_session_eq live_session_fields)

text \<open>
  Claim C6, where the code departs from it.  \<open>stop_conversation\<close> clears \<open>is_active\<close>
  before it calls \<open>send_audio_content_end\<close>, and \<open>_send_raw_event\<close> returns at once on
  an inactive session: with a turn open, the stop returns normally, the last event on the
  wire after it is still the \<open>contentStart\<close> of the turn, and no \<open>contentEnd\<close> follows
  it.
\<close>

theorem stop_conversation_drops_content_end:
  "fst (stop_conversation good_env turn_open_session) = Inr () \<and>
   sends (snd (stop_conversation good_env turn_open_session)) = sends turn_open_session \<and>
   map (fst \<circ> snd) (drop 5 (sends (snd (stop_conversation good_env turn_open_session)))) =
     [content_start turn_open_session] \<and>
   map (event_name \<circ> fst \<circ> snd)
     (drop 5 (sends (snd (stop_conversation good_env turn_open_session)))) =
     [Some ''contentStart''] \<and>
   \<not> is_active (snd (stop_conversation good_env turn_open_session))"
  unfolding stop_conversation_no_audio[OF turn_open_session_fields(1,2)]
  by (simp add: turn_open_session_fields good_env_def)
     (simp add: turn_open_session_eq live_session_fields content_start_def event_name_def)

lemma reassign_is_active: "\<not> is_active t \<Longrightarrow> t\<lparr>is_active := False\<rparr> = t"
  by (cases t) simp

lemma reassign_input_stream: "input_stream t = None \<Longrightarrow> t\<lparr>input_stream := None\<rparr> = t"
  by (cases t) simp

text \<open>A stopped session asked to stop again raises at the first PyAudio stream it has.\<close>

lemma stop_conversation_closed_input:
  assumes "input_stream t = Some (PaStream r True)" and "\<not> is_active t"
  shows "stop_conversation e t = (Inl OSError, t)"
  using assms
  by (simp add: stop_conversation_def send_audio_content_end_def send_raw_event_inactive
      close_pa_stream_def reassign_is_active)

lemma stop_conversation_closed_output:
  assumes "input_stream t = None" and "output_stream t = Some (PaStream r True)"
    and "\<not> is_active t"
  shows "stop_conversation e t = (Inl OSError, t)"
  using assms
  by (simp add: stop_conversation_def send_audio_content_end_def send_raw_event_inactive
      close_pa_stream_def reassign_is_active reassign_input_stream)

text \<open>However the first stop ends, the PyAudio streams the session has are closed after it.\<close>

lemma stop_conversation_closes_pa_streams:
  "(input_stream s \<noteq> None \<longrightarrow>
      (\<exists>r. input_stream (snd (stop_conversation e s)) = Some (PaStream r True))) \<and>
   (input_stream s = None \<longrightarrow>
      input_stream (snd (stop_conversation e s)) = None \<and>
      (output_stream s \<noteq> None \<longrightarrow>
         (\<exists>r. output_stream (snd (stop_conversation e s)) = Some (PaStream r True))))"
proof (cases "input_stream s")
  case None
  show ?thesis
  proof (cases "output_stream s")
    case n: None
    show ?thesis
      using None n by (simp add: stop_conversation_no_audio)
  next
    case (Some d)
    obtain r c where d: "d = PaStream r c" by (cases d)
    show ?thesis
      using None Some d
      by (cases c; cases "stream_response s")
         (simp_all add: stop_conversation_def Let_def send_audio_content_end_def
           send_raw_event_inactive close_pa_stream_def)
  qed
next
  case (Some d)
  obtain r c where d: "d = PaStream r c" by (cases d)
  show ?thesis
    using Some d
    by (cases c; cases "close_pa_stream (output_stream s)"; cases "stream_response s")
       (simp_all add: stop_conversation_def Let_def send_audio_content_end_def
         send_raw_event_inactive close_pa_stream_def)
qed

text \<open>
  Claim C7, as the code has it.  \<open>stop_conversation\<close> has no guard for a session already
  stopped.  A second call leaves \<open>is_active\<close> false and sends nothing, and it changes no
  attribute of the session, but it is neither silent nor safe.  On a session that has a
  PyAudio stream it raises \<open>OSError\<close>, from \<open>is_active()\<close> on the stream the first call
  closed, before it does anything else.  On a session with no PyAudio stream it runs the
  teardown again: \<open>p.terminate()\<close> is called once more, and so is \<open>input_stream.close()\<close>
  on the Bedrock stream when there is one, and the call raises exactly when that close
  raises.
\<close>

theorem second_stop_raises_or_repeats_teardown:
  "\<not> is_active (snd (stop_conversation e s)) \<and>
   \<not> is_active (snd (stop_conversation e (snd (stop_conversation e s)))) \<and>
   sends (snd (stop_conversation e (snd (stop_conversation e s)))) =
     sends (snd (stop_conversation e s)) \<and>
   (input_stream s \<noteq> None \<or> output_stream s \<noteq> None \<longrightarrow>
      stop_conversation e (snd (stop_conversation e s)) =
        (Inl OSError, snd (stop_conversation e s))) \<and>
   (input_stream s = None \<and> output_stream s = None \<longrightarrow>
      stop_conversation e (snd (stop_conversation e s)) =
        (if stream_response s = None \<or>
            close_ok e (length (closes (snd (stop_conversation e s))))
         then Inr () else Inl StreamCloseError,
         (snd (stop_conversation e s))
           \<lparr>pa_terminations := Suc (pa_terminations (snd (stop_conversation e s))),
            closes := closes (snd (stop_conversation e s)) @
                      (case stream_response s of None \<Rightarrow> [] | Some k \<Rightarrow> [k])\<rparr>))"
proof -
  let ?t = "snd (stop_conversation e s)"
  note f = stop_conversation_frame[of e s]
  have i: "\<not> is_active ?t" using f by blast
  have a: "\<not> is_active (snd (stop_conversation e ?t))"
    "sends (snd (stop_conversation e ?t)) = sends ?t"
    using stop_conversation_frame[of e ?t] by blast+
  have b: "stop_conversation e ?t = (Inl OSError, ?t)"
    if h: "input_stream s \<noteq> None \<or> output_stream s \<noteq> None"
  proof (cases "input_stream s")
    case None
    then obtain r where "input_stream ?t = None" "output_stream ?t = Some (PaStream r True)"
      using h stop_conversation_closes_pa_streams[of s e] by auto
    then show ?thesis using i by (rule stop_conversation_closed_output)
  next
    case (Some d)
    then obtain r where "input_stream ?t = Some (PaStream r True)"
      using stop_conversation_closes_pa_streams[of s e] by auto
    then show ?thesis using i by (rule stop_conversation_closed_input)
  qed
  have c: "stop_conversation e ?t =
        (if stream_response s = None \<or> close_ok e (length (closes ?t))
         then Inr () else Inl StreamCloseError,
         ?t\<lparr>pa_terminations := Suc (pa_terminations ?t),
            closes := closes ?t @ (case stream_response s of None \<Rightarrow> [] | Some k \<Rightarrow> [k])\<rparr>)"
    if n: "input_stream s = None \<and> output_stream s = None"
  proof -
    have t: "?t = s\<lparr>is_active := False, input_stream := None, output_stream := None,
        pa_terminations := Suc (pa_terminations s),
        closes := closes s @ (case stream_response s of None \<Rightarrow> [] | Some k \<Rightarrow> [k])\<rparr>"
      using n by (simp add: stop_conversation_no_audio)
    have "input_stream ?t = None" "output_stream ?t = None"
      by (simp_all add: t)
    from stop_conversation_no_audio[OF this, of e] show ?thesis
      by (simp add: t)
  qed
  show ?thesis using i a b c by blast
qed

text \<open>
  With its PyAudio streams set up, an initialised session stops normally once; the second
  stop raises \<open>OSError\<close>.  The claim as stated fails.
\<close>

theorem second_stop_with_audio_streams_raises:
  "fst (stop_conversation good_env audio_session) = Inr () \<and>
   fst (stop_conversation good_env (snd (stop_conversation good_env audio_session))) =
     Inl OSError"
proof -
  have a: "audio_session =
      live_session\<lparr>input_stream := Some (PaStream True False),
                   output_stream := Some (PaStream True False), pa_opens := 2\<rparr>"
    by (simp add: audio_session_def setup_audio_streams_def Let_def good_env_def live_session_eq)
  have b: "stop_conversation good_env audio_session =
      (Inr (),
       live_session\<lparr>is_active := False, input_stream := Some (PaStream False True),
                    output_stream := Some (PaStream False True), pa_opens := 2,
                    pa_terminations := 1, closes := [0]\<rparr>)"
    unfolding a
    by (simp add: stop_conversation_def Let_def send_audio_content_end_def
        send_raw_event_inactive close_pa_stream_def live_session_fields good_env_def)
  show ?thesis
    unfolding b
    by (simp add: stop_conversation_def Let_def send_audio_content_end_def
        send_raw_event_inactive close_pa_stream_def)
qed

theorem second_stop_raises_or_repeats_teardown_witness:
  "stop_conversation good_env (snd (stop_conversation good_env audio_session)) =
     (Inl OSError, snd (stop_conversation good_env audio_session)) \<and>
   closes (snd (stop_conversation good_env (snd (stop_conversation good_env live_session)))) =
     closes (snd (stop_conversation good_env live_session)) @ [0] \<and>
   fst (stop_conversation good_env (snd (stop_conversation good_env live_session))) = Inr ()"
proof -
  have a: "input_stream audio_session \<noteq> None \<or> output_stream audio_session \<noteq> None"
    by (simp add: audio_session_def setup_audio_streams_def Let_def good_env_def)
  have l: "input_stream live_session = None \<and> output_stream live_session = None"
    by (simp add: live_session_fields)
  note t1 = second_stop_raises_or_repeats_teardown[of good_env audio_session]
  note t2 = second_stop_raises_or_repeats_teardown[of good_env live_session]
  from t1 a have r1:
    "stop_conversation good_env (snd (stop_conversation good_env audio_session)) =
     (Inl OSError, snd (stop_conversation good_env audio_session))"
    by blast
  from t2 l have r2:
    "stop_conversation good_env (snd (stop_conversation good_env live_session)) =
        (if stream_response live_session = None \<or>
            close_ok good_env (length (closes (snd (stop_conversation good_env live_session))))
         then Inr () else Inl StreamCloseError,
         (snd (stop_conversation good_env live_session))
           \<lparr>pa_terminations := Suc (pa_terminations (snd (stop_conversation good_env live_session))),
            closes := closes (snd (stop_conversation good_env live_session)) @
                      (case stream_response live_session of None \<Rightarrow> [] | Some k \<Rightarrow> [k])\<rparr>)"
    by blast
  show ?thesis
    unfolding r2 using r1 by (simp add: live_session_fields good_env_def)
qed

section \<open>The audio payload\<close>

subsection \<open>Sextets of a byte triple\<close>

lemma byte_masks: "(3 :: byte) = mask 2" "(15 :: byte) = mask 4" "(63 :: byte) = mask 6"
  by (simp_all add: mask_eq_exp_minus_1)

lemma sextet_bounds:
  fixes a b c :: byte
  shows "take_bit 6 (drop_bit 2 a) = drop_bit 2 a"
    and "take_bit 6 (push_bit 4 (and a 3)) = push_bit 4 (and a 3)"
    and "take_bit 6 (or (push_bit 4 (and a 3)) (drop_bit 4 b)) = or (push_bit 4 (and a 3)) (drop_bit 4 b)"
    and "take_bit 6 (push_bit 2 (and b 15)) = push_bit 2 (and b 15)"
    and "take_bit 6 (or (push_bit 2 (and b 15)) (drop_bit 6 c)) = or (push_bit 2 (and b 15)) (drop_bit 6 c)"
    and "take_bit 6 (and c 63) = and c 63"
  unfolding byte_masks
  by (rule bit_word_eqI; auto simp: bit_simps dest: bit_imp_le_length)+

lemma byte_eqI:
  fixes a b :: byte
  assumes "bit a 0 = bit b 0" "bit a 1 = bit b 1" "bit a 2 = bit b 2" "bit a 3 = bit b 3"
    "bit a 4 = bit b 4" "bit a 5 = bit b 5" "bit a 6 = bit b 6" "bit a 7 = bit b 7"
  shows "a = b"
proof (rule bit_word_eqI)
  fix n :: nat
  assume "n < LENGTH(8)"
  then have "n \<in> {0, 1, 2, 3, 4, 5, 6, 7}" by auto
  then show "bit a n = bit b n" using assms by auto
qed

lemma byte_high_bit: "8 \<le> n \<Longrightarrow> bit (w :: byte) n = False"
  by (auto dest: bit_imp_le_length)

lemma sextets_rejoin:
  fixes a b c :: byte
  shows "or (push_bit 2 (drop_bit 2 a)) (drop_bit 4 (or (push_bit 4 (and a 3)) (drop_bit 4 b))) = a"
    and "or (push_bit 2 (drop_bit 2 a)) (drop_bit 4 (push_bit 4 (and a 3))) = a"
    and "and (or (push_bit 4 (and a 3)) (drop_bit 4 b)) 15 = drop_bit 4 b"
    and "or (push_bit 4 (drop_bit 4 b)) (drop_bit 2 (or (push_bit 2 (and b 15)) (drop_bit 6 c))) = b"
    and "or (push_bit 4 (drop_bit 4 b)) (drop_bit 2 (push_bit 2 (and b 15))) = b"
    and "and (or (push_bit 2 (and b 15)) (drop_bit 6 c)) 3 = drop_bit 6 c"
    and "or (push_bit 6 (drop_bit 6 c)) (and c 63) = c"
  unfolding byte_masks
  by (rule byte_eqI; simp add: bit_simps byte_high_bit)+

lemma lookup_index_nth:
  "distinct xs \<Longrightarrow> n < length xs \<Longrightarrow> lookup_index xs (xs ! n) m = Some (m + n)"
proof (induction xs arbitrary: n m)
  case Nil
  then show ?case by simp
next
  case (Cons x xs)
  show ?case
  proof (cases n)
    case 0
    then show ?thesis by simp
  next
    case (Suc k)
    then have "xs ! k \<in> set xs" using Cons.prems by simp
    then have "x \<noteq> xs ! k" using Cons.prems by auto
    then show ?thesis using Suc Cons by simp
  qed
qed

lemma b64_alphabet_facts:
  "length b64_alphabet = 64" "distinct b64_alphabet" "CHR ''='' \<notin> set b64_alphabet"
  "list_all (\<lambda>c. (of_char c :: nat) < 128) b64_alphabet"
  by (simp_all add: b64_alphabet_def)

lemma sextet_unat:
  fixes w :: byte
  assumes "take_bit 6 w = w"
  shows "unat w < 64"
proof -
  have "unat w = take_bit 6 (unat w)"
    using assms by (metis unsigned_take_bit_eq)
  also have "\<dots> < 2 ^ 6" by (rule take_bit_nat_less_exp)
  finally show ?thesis by simp
qed

lemma b64_char_in_alphabet:
  assumes "take_bit 6 w = w"
  shows "b64_char w \<in> set b64_alphabet"
  using sextet_unat[OF assms] by (simp add: b64_char_def b64_alphabet_facts(1))

lemma b64_value_char:
  assumes "take_bit 6 w = w"
  shows "b64_value (b64_char w) = Some w"
  using sextet_unat[OF assms]
  by (simp add: b64_value_def b64_char_def lookup_index_nth b64_alphabet_facts)

lemma b64_char_not_pad:
  assumes "take_bit 6 w = w"
  shows "b64_char w \<noteq> CHR ''=''"
  using b64_char_in_alphabet[OF assms] b64_alphabet_facts(3) by auto

lemma b64_char_ascii:
  assumes "take_bit 6 w = w"
  shows "(of_char (b64_char w) :: nat) < 128"
  using b64_char_in_alphabet[OF assms] b64_alphabet_facts(4) by (simp add: list_all_iff)

lemma a2b_data:
  assumes "take_bit 6 v = v"
  shows "a2b_base64 (b64_char v # cs) 0 l p = a2b_base64 cs 1 v 0"
    and "a2b_base64 (b64_char v # cs) 1 l p =
           map_option ((#) (or (push_bit 2 l) (drop_bit 4 v))) (a2b_base64 cs 2 (and v 15) 0)"
    and "a2b_base64 (b64_char v # cs) 2 l p =
           map_option ((#) (or (push_bit 4 l) (drop_bit 2 v))) (a2b_base64 cs 3 (and v 3) 0)"
    and "a2b_base64 (b64_char v # cs) 3 l p =
           map_option ((#) (or (push_bit 6 l) v)) (a2b_base64 cs 0 0 0)"
  by (simp_all add: b64_value_char[OF assms] b64_char_not_pad[OF assms])

lemma a2b_pad:
  "a2b_base64 (CHR ''='' # CHR ''='' # cs) 2 l 0 = Some []"
  "a2b_base64 (CHR ''='' # cs) 3 l 0 = Some []"
  by simp_all

lemma pad_ascii: "(of_char CHR ''='' :: nat) < 128"
  by simp

lemma b64decode_b64encode: "b64decode (b64encode bs) = Some bs"
  unfolding b64decode_def
proof (induction bs rule: b64encode.induct)
  case 1
  then show ?case by simp
next
  case (2 a)
  show ?case
    by (simp only: b64encode.simps a2b_data sextet_bounds a2b_pad sextets_rejoin option.map)
next
  case (3 a b)
  show ?case
    by (simp only: b64encode.simps a2b_data sextet_bounds a2b_pad sextets_rejoin option.map)
next
  case (4 a b c rest)
  show ?case
    by (simp only: b64encode.simps a2b_data sextet_bounds sextets_rejoin option.map 4)
qed

lemma b64encode_ascii: "list_all (\<lambda>c. (of_char c :: nat) < 128) (b64encode bs)"
  by (induction bs rule: b64encode.induct)
     (simp_all only: b64encode.simps list.pred_inject b64_char_ascii sextet_bounds pad_ascii simp_thms)

text \<open>The two functions on the usual examples, and the decoder on text it is lenient or strict about.\<close>

lemma b64encode_examples:
  "b64encode [77, 97, 110] = ''TWFu''" "b64encode [77, 97] = ''TWE=''"
  "b64encode [77] = ''TQ==''" "b64encode [255, 255, 254] = ''///+''"
  by (simp_all add: b64_char_def b64_alphabet_def)

lemma b64decode_examples:
  "b64decode ''TWFu'' = Some [77, 97, 110]" "b64decode ''TWE='' = Some [77, 97]"
  "b64decode ''TQ=='' = Some [77]" "b64decode ''T W.E='' = Some [77, 97]"
  "b64decode ''TWE'' = None" "b64decode ''T'' = None" "b64decode [] = Some []"
  by (simp_all add: b64decode_def b64_value_def b64_alphabet_def)

subsection \<open>From the capture queue to the playback queue\<close>

lemma handle_audio_output:
  assumes "list_all (\<lambda>c. (of_char c :: nat) < 128) t" and "b64decode t = Some ab"
  shows "handle_document (audio_output_event (JStr t)) s =
         Inr (s\<lparr>audio_output_queue := audio_output_queue s @ [ab]\<rparr>)"
  using assms by (simp add: handle_document_def audio_output_event_def)

lemma audio_event_reads:
  "event_name (audio_event s blob) = Some ''audioInput''"
  "audio_input_content (audio_event s blob) = Inr (JStr blob)"
  by (simp_all add: event_name_def audio_input_content_def audio_event_def)

text \<open>The inbound loop passes over every \<open>audioInput\<close> document the class can build.\<close>

lemma inbound_passes_over_audio_input:
  "handle_received (Document (audio_event s blob)) t = (True, t)"
  by (simp add: handle_document_def audio_event_def)

text \<open>One turn of the outbound loop on a chunk just put on an empty capture queue.\<close>

lemma process_audio_input_chunk:
  assumes "is_active s" and "stream_response s = Some k" and "audio_input_queue s = []"
  shows "pcm \<noteq> [] \<Longrightarrow>
           sends (snd (process_audio_input e False (PumpLoopHead, add_audio_chunk pcm s))) =
             sends s @ [(k, audio_event s (b64encode pcm), send_ok e (length (sends s)))]"
    and "pcm = [] \<Longrightarrow>
           sends (snd (process_audio_input e False (PumpLoopHead, add_audio_chunk pcm s))) =
             sends s"
  using assms
  by (simp_all add: add_audio_chunk_def pump_get_def pump_frame_def send_raw_event_active
      audio_event_def)

text \<open>
  Claim C9, as the code has it.  For every non-empty byte string put on the capture queue,
  the outbound loop sends one \<open>audioInput\<close> document whose content field is base64 text
  that \<open>base64.b64decode\<close> turns back into exactly the original bytes.  The inbound loop
  decodes audio from \<open>audioOutput\<close> documents only: given an \<open>audioOutput\<close> document
  with that content field it puts exactly the original bytes on the playback queue, and
  given the \<open>audioInput\<close> document itself it decodes nothing and goes on.  For the empty
  byte string the outbound loop builds and sends no event.
\<close>

theorem audio_payload_round_trip:
  assumes "is_active s" and "stream_response s = Some k" and "audio_input_queue s = []"
  shows "(pcm \<noteq> [] \<longrightarrow>
           (\<exists>doc blob.
              sends (snd (process_audio_input e False (PumpLoopHead, add_audio_chunk pcm s))) =
                sends s @ [(k, doc, send_ok e (length (sends s)))] \<and>
              event_name doc = Some ''audioInput'' \<and>
              audio_input_content doc = Inr (JStr blob) \<and>
              b64decode blob = Some pcm \<and>
              (\<forall>t. handle_received (Document (audio_output_event (JStr blob))) t =
                     (True, t\<lparr>audio_output_queue := audio_output_queue t @ [pcm]\<rparr>)) \<and>
              (\<forall>t. handle_received (Document doc) t = (True, t)))) \<and>
         (pcm = [] \<longrightarrow>
           sends (snd (process_audio_input e False (PumpLoopHead, add_audio_chunk pcm s))) =
             sends s)"
proof -
  have out: "handle_received (Document (audio_output_event (JStr (b64encode pcm)))) t =
               (True, t\<lparr>audio_output_queue := audio_output_queue t @ [pcm]\<rparr>)" for t
  proof -
    have "handle_document (audio_output_event (JStr (b64encode pcm))) t =
         Inr (t\<lparr>audio_output_queue := audio_output_queue t @ [pcm]\<rparr>)"
      using b64encode_ascii b64decode_b64encode by (rule handle_audio_output)
    then show ?thesis by simp
  qed
  have a: "\<exists>doc blob.
              sends (snd (process_audio_input e False (PumpLoopHead, add_audio_chunk pcm s))) =
                sends s @ [(k, doc, send_ok e (length (sends s)))] \<and>
              event_name doc = Some ''audioInput'' \<and>
              audio_input_content doc = Inr (JStr blob) \<and>
              b64decode blob = Some pcm \<and>
              (\<forall>t. handle_received (Document (audio_output_event (JStr blob))) t =
                     (True, t\<lparr>audio_output_queue := audio_output_queue t @ [pcm]\<rparr>)) \<and>
              (\<forall>t. handle_received (Document doc) t = (True, t))"
    if "pcm \<noteq> []"
  proof (intro exI conjI)
    show "sends (snd (process_audio_input e False (PumpLoopHead, add_audio_chunk pcm s))) =
                sends s @ [(k, audio_event s (b64encode pcm), send_ok e (length (sends s)))]"
      using assms that by (rule process_audio_input_chunk(1))
    show "event_name (audio_event s (b64encode pcm)) = Some ''audioInput''"
      by (rule audio_event_reads)
    show "audio_input_content (audio_event s (b64encode pcm)) = Inr (JStr (b64encode pcm))"
      by (rule audio_event_reads)
    show "b64decode (b64encode pcm) = Some pcm"
      by (rule b64decode_b64encode)
    show "\<forall>t. handle_received (Document (audio_output_event (JStr (b64encode pcm)))) t =
               (True, t\<lparr>audio_output_queue := audio_output_queue t @ [pcm]\<rparr>)"
      using out by blast
    show "\<forall>t. handle_received (Document (audio_event s (b64encode pcm))) t = (True, t)"
      using inbound_passes_over_audio_input by blast
  qed
  have b: "sends (snd (process_audio_input e False (PumpLoopHead, add_audio_chunk pcm s))) =
             sends s"
    if "pcm = []"
    using assms that by (rule process_audio_input_chunk(2))
  show ?thesis using a b by blast
qed

text \<open>
  The document the outbound loop sends for the bytes 1, 2, 3 is an \<open>audioInput\<close> event;
  given it, the inbound loop goes on with the playback queue still empty; and for the
  empty byte string no event is sent at all.  The claim as stated fails.
\<close>

theorem inbound_loop_ignores_audio_input_event:
  "event_name (fst (snd (last (sends (snd (process_audio_input good_env False
      (PumpLoopHead, add_audio_chunk [1, 2, 3] live_session))))))) = Some ''audioInput'' \<and>
   handle_received (Document (fst (snd (last (sends (snd (process_audio_input good_env False
      (PumpLoopHead, add_audio_chunk [1, 2, 3] live_session)))))))) live_session =
     (True, live_session) \<and>
   audio_output_queue live_session = [] \<and>
   sends (snd (process_audio_input good_env False
      (PumpLoopHead, add_audio_chunk [] live_session))) = sends live_session"
proof -
  have n: "[1, 2, 3] \<noteq> ([] :: bytes)" by simp
  note l = live_session_fields(1,2,3)
  show ?thesis
    unfolding process_audio_input_chunk(1)[OF l n] process_audio_input_chunk(2)[OF l refl]
    by (simp only: last_snoc fst_conv snd_conv audio_event_reads
        inbound_passes_over_audio_input live_session_fields simp_thms)
qed

theorem audio_payload_round_trip_witness:
  "\<exists>doc blob.
     sends (snd (process_audio_input good_env False
        (PumpLoopHead, add_audio_chunk [1, 2, 3] live_session))) =
       sends live_session @ [(0, doc, True)] \<and>
     audio_input_content doc = Inr (JStr blob) \<and>
     b64decode blob = Some [1, 2, 3] \<and>
     audio_output_queue
       (snd (handle_received (Document (audio_output_event (JStr blob))) live_session)) =
       [[1, 2, 3]]"
proof -
  have n: "[1, 2, 3] \<noteq> ([] :: bytes)" by simp
  note t = audio_payload_round_trip[OF live_session_fields(1,2,3), of "[1, 2, 3]" good_env]
  from t n obtain doc blob where
    d: "sends (snd (process_audio_input good_env False
          (PumpLoopHead, add_audio_chunk [1, 2, 3] live_session))) =
        sends live_session @ [(0, doc, send_ok good_env (length (sends live_session)))]"
      "audio_input_content doc = Inr (JStr blob)"
      "b64decode blob = Some [1, 2, 3]"
      "\<forall>t. handle_received (Document (audio_output_event (JStr blob))) t =
         (True, t\<lparr>audio_output_queue := audio_output_queue t @ [[1, 2, 3]]\<rparr>)"
    by blast
  have "audio_output_queue
       (snd (handle_received (Document (audio_output_event (JStr blob))) live_session)) =
       [[1, 2, 3]]"
    using d(4) by (simp add: live_session_fields)
  moreover have "send_ok good_env (length (sends live_session))"
    by (simp add: good_env_def)
  ultimately show ?thesis using d(1,2,3) by auto
qed

section \<open>After the inbound loop has returned\<close>

text \<open>
  Every way out of the inbound loop: the flag found false at the head of the loop, and,
  at the awaits or in the decoding, end of stream, an exception of the receive, a
  cancellation, bytes that are not UTF-8, and a document whose handling raises.  Each
  ends the coroutine with \<open>is_active\<close> cleared.
\<close>

lemma process_responses_leaves:
  assumes "pc \<noteq> RespDone"
  shows "process_responses (Some StopAsyncIteration) (pc, s) = (RespDone, s\<lparr>is_active := False\<rparr>)"
    and "process_responses (Some ReceiveError) (pc, s) = (RespDone, s\<lparr>is_active := False\<rparr>)"
    and "process_responses (Some CancelledError) (pc, s) = (RespDone, s\<lparr>is_active := False\<rparr>)"
    and "process_responses (Some UnicodeDecodeError) (pc, s) =
           (RespDone, s\<lparr>is_active := False\<rparr>)"
    and "handle_document j s = Inl x \<Longrightarrow>
           process_responses (Some (Document j)) (pc, s) = (RespDone, s\<lparr>is_active := False\<rparr>)"
    and "\<not> is_active s \<Longrightarrow>
           process_responses r (RespLoopHead, s) = (RespDone, s\<lparr>is_active := False\<rparr>)"
  using assms by (cases pc; simp add: resp_deliver_def)+

lemma process_responses_exit:
  assumes "pc \<noteq> RespDone" and "process_responses r (pc, s) = (RespDone, s')"
  shows "\<not> is_active s'"
proof (cases pc)
  case RespLoopHead
  then show ?thesis using assms(2)
    by (auto simp: resp_deliver_def split: if_splits option.splits prod.splits bool.splits)
next
  case RespAwaitReceive
  then show ?thesis using assms(2)
    by (auto simp: resp_deliver_def split: if_splits option.splits prod.splits bool.splits)
next
  case RespDone
  then show ?thesis using assms(1) by simp
qed

lemma play_data_inactive: "\<not> is_active s \<Longrightarrow> play_data e d s = s"
  by (simp add: play_data_def)

text \<open>On an inactive session the playback loop returns within two turns, wherever it is.\<close>

lemma play_run_inactive:
  assumes "\<not> is_active s"
  shows "fst (play_run e 2 (ppc, s)) = PlayDone"
  using assms
  by (cases ppc; cases "audio_output_queue s")
     (simp_all add: numeral_2_eq_2 play_data_inactive)

text \<open>On an active session with nothing to play the playback loop goes round for ever.\<close>

lemma play_run_active:
  assumes "is_active s" and "audio_output_queue s = []" and "ppc \<noteq> PlayDone"
  shows "fst (play_run e n (ppc, s)) \<noteq> PlayDone"
  using assms(3)
proof (induction n arbitrary: ppc)
  case 0
  then show ?case by simp
next
  case (Suc n)
  show ?case
  proof (cases ppc)
    case PlayLoopHead
    then show ?thesis using Suc.IH[of PlayAwaitGet] assms(1,2) by simp
  next
    case PlayAwaitGet
    then show ?thesis using Suc.IH[of PlayLoopHead] assms(1,2) by simp
  next
    case PlayDone
    then show ?thesis using Suc.prems by simp
  qed
qed

lemma send_raw_event_old_stream:
  assumes "stream_response s = Some k \<longrightarrow> \<not> is_active s"
  shows "sent_on k (send_raw_event e j s) = sent_on k s"
  using assms by (auto simp: send_raw_event_def sent_on_def split: option.splits)

lemma process_audio_input_old_stream:
  assumes "stream_response s = Some k \<longrightarrow> \<not> is_active s"
  shows "sent_on k (snd (process_audio_input e c (pc, s))) = sent_on k s \<and>
         stream_response (snd (process_audio_input e c (pc, s))) = stream_response s \<and>
         is_active (snd (process_audio_input e c (pc, s))) = is_active s \<and>
         stream_opens (snd (process_audio_input e c (pc, s))) = stream_opens s"
proof -
  have g: "sent_on k (snd (pump_get e s)) = sent_on k s \<and>
         stream_response (snd (pump_get e s)) = stream_response s \<and>
         is_active (snd (pump_get e s)) = is_active s \<and>
         stream_opens (snd (pump_get e s)) = stream_opens s"
  proof (cases "audio_input_queue s")
    case Nil
    then show ?thesis by (simp add: pump_get_def)
  next
    case (Cons d q)
    let ?t = "s\<lparr>audio_input_queue := q\<rparr>"
    have "stream_response ?t = Some k \<longrightarrow> \<not> is_active ?t"
      using assms by simp
    from send_raw_event_old_stream[OF this]
    have "sent_on k (pump_frame e d ?t) = sent_on k s"
      by (simp add: pump_frame_def sent_on_def)
    then show ?thesis using Cons by (simp add: pump_get_def pump_frame_def)
  qed
  show ?thesis
    using g by (cases pc) simp_all
qed

text \<open>
  A stream that is no longer the active one of the session gets no further event from
  any call: \<open>initialize_stream\<close> opens a stream of its own, and every other call sends
  to the current stream of an active session only.
\<close>

lemma do_call_old_stream:
  assumes "k < stream_opens s" and "stream_response s = Some k \<longrightarrow> \<not> is_active s"
  shows "k < stream_opens (do_call e c s) \<and>
         (stream_response (do_call e c s) = Some k \<longrightarrow> \<not> is_active (do_call e c s)) \<and>
         sent_on k (do_call e c s) = sent_on k s"
proof (cases c)
  case InitializeStream
  show ?thesis
  proof (cases "(bedrock_client s \<or> client_ok e (client_attempts s)) \<and>
                open_ok e (stream_opens s)")
    case True
    then have ok: "bedrock_client s \<or> client_ok e (client_attempts s)"
      "open_ok e (stream_opens s)"
      by simp_all
    show ?thesis
      using assms InitializeStream
      by (cases "bedrock_client s")
         (simp_all add: initialize_stream_ok[OF ok] sent_on_def initialize_client_def)
  next
    case False
    then show ?thesis
      using assms InitializeStream
      by (cases "bedrock_client s"; cases "client_ok e (client_attempts s)")
         (simp_all add: initialize_stream_def initialize_client_def sent_on_def)
  qed
next
  case SendAudioContentStart
  then show ?thesis using assms
    by (simp add: send_audio_content_start_def send_raw_event_old_stream)
next
  case SendAudioContentEnd
  then show ?thesis using assms
    by (simp add: send_audio_content_end_def send_raw_event_old_stream)
next
  case (AddAudioChunk ab)
  then show ?thesis using assms by (simp add: add_audio_chunk_def sent_on_def)
next
  case (InputCallback ab)
  then show ?thesis using assms
    by (auto simp add: input_callback_def add_audio_chunk_def sent_on_def)
next
  case StopConversation
  then show ?thesis using assms stop_conversation_frame[of e s] by (simp add: sent_on_def)
next
  case SetupAudioStreams
  then show ?thesis using assms setup_audio_streams_frame[of e s] by (simp add: sent_on_def)
next
  case (ProcessAudioInput pc)
  then show ?thesis
    using assms process_audio_input_old_stream[OF assms(2), of e False pc] by simp
qed

lemma run_calls_old_stream:
  assumes "k < stream_opens s" and "stream_response s = Some k \<longrightarrow> \<not> is_active s"
  shows "sent_on k (run_calls e cs s) = sent_on k s"
  using assms
proof (induction cs arbitrary: s)
  case Nil
  then show ?case by simp
next
  case (Cons c cs)
  note d = do_call_old_stream[OF Cons.prems, of e c]
  have "sent_on k (run_calls e cs (do_call e c s)) = sent_on k (do_call e c s)"
    using d by (intro Cons.IH) simp_all
  then show ?case using d by simp
qed

text \<open>
  The stream of a session is always one an invocation has returned: in every session
  reached from \<open>__init__\<close> its number is below the count of invocations.
\<close>

lemma process_audio_input_stream:
  "stream_response (snd (process_audio_input e c (pc, s))) = stream_response s \<and>
   stream_opens (snd (process_audio_input e c (pc, s))) = stream_opens s"
  by (cases pc; cases "audio_input_queue s") (simp_all add: pump_get_def pump_frame_def)

lemma do_call_stream_known:
  assumes "\<forall>k. stream_response s = Some k \<longrightarrow> k < stream_opens s"
  shows "\<forall>k. stream_response (do_call e c s) = Some k \<longrightarrow> k < stream_opens (do_call e c s)"
proof (cases c)
  case InitializeStream
  show ?thesis
  proof (cases "(bedrock_client s \<or> client_ok e (client_attempts s)) \<and>
                open_ok e (stream_opens s)")
    case True
    then have ok: "bedrock_client s \<or> client_ok e (client_attempts s)"
      "open_ok e (stream_opens s)"
      by simp_all
    show ?thesis
      using InitializeStream
      by (cases "bedrock_client s") (simp_all add: initialize_stream_ok[OF ok])
  next
    case False
    then show ?thesis
      using assms InitializeStream
      by (cases "bedrock_client s"; cases "client_ok e (client_attempts s)")
         (auto simp add: initialize_stream_def initialize_client_def)
  qed
next
  case SendAudioContentStart
  then show ?thesis using assms by (simp add: send_audio_content_start_def)
next
  case SendAudioContentEnd
  then show ?thesis using assms by (simp add: send_audio_content_end_def)
next
  case (AddAudioChunk ab)
  then show ?thesis using assms by (simp add: add_audio_chunk_def)
next
  case (InputCallback ab)
  then show ?thesis using assms by (simp add: input_callback_def add_audio_chunk_def)
next
  case StopConversation
  then show ?thesis using assms stop_conversation_frame[of e s] by simp
next
  case SetupAudioStreams
  then show ?thesis using assms setup_audio_streams_frame[of e s] by simp
next
  case (ProcessAudioInput pc)
  then show ?thesis using assms process_audio_input_stream[of e False pc s] by simp
qed

lemma run_calls_stream_known:
  "stream_response (run_calls e cs (new_session e voice pn cn acn)) = Some k \<Longrightarrow>
   k < stream_opens (run_calls e cs (new_session e voice pn cn acn))"
proof -
  have "\<forall>k. stream_response (run_calls e cs s) = Some k \<longrightarrow> k < stream_opens (run_calls e cs s)"
    if "\<forall>k. stream_response s = Some k \<longrightarrow> k < stream_opens s" for s
    using that
  proof (induction cs arbitrary: s)
    case Nil
    then show ?case by simp
  next
    case (Cons c cs)
    from Cons.IH[OF do_call_stream_known[OF Cons.prems]] show ?case by simp
  qed
  moreover have "\<forall>k. stream_response (new_session e voice pn cn acn) = Some k \<longrightarrow>
      k < stream_opens (new_session e voice pn cn acn)"
    by (simp add: new_session_def initialize_client_def)
  ultimately show "stream_response (run_calls e cs (new_session e voice pn cn acn)) = Some k \<Longrightarrow>
   k < stream_opens (run_calls e cs (new_session e voice pn cn acn))"
    by blast
qed

text \<open>
  Claim C10, as the code has it.  A running inbound loop returns when it finds the flag
  false, at end of stream, on an exception of the receive, on a cancellation and on any
  exception of the decoding other than a JSON error, and every time it has cleared
  \<open>is_active\<close> on the way out.  From then on, until \<open>initialize_stream\<close> is called
  again, no call on the session and no turn of the outbound loop sends anything, and the
  playback loop returns within two turns.  A renewed \<open>initialize_stream\<close> activates the
  session again on a stream of its own; the stream whose inbound loop returned gets no
  further event whatever is called.
\<close>

theorem inbound_exit_silences_session:
  assumes "pc \<noteq> RespDone"
  shows "(m = StopAsyncIteration \<or> m = ReceiveError \<or> m = CancelledError \<or>
          m = UnicodeDecodeError \<or> (\<exists>j x. m = Document j \<and> handle_document j s = Inl x) \<longrightarrow>
            process_responses (Some m) (pc, s) = (RespDone, s\<lparr>is_active := False\<rparr>)) \<and>
         (\<not> is_active s \<longrightarrow>
            process_responses r (RespLoopHead, s) = (RespDone, s\<lparr>is_active := False\<rparr>)) \<and>
         (process_responses r (pc, s) = (RespDone, s') \<longrightarrow>
            \<not> is_active s' \<and>
            (\<forall>cs. InitializeStream \<notin> set cs \<longrightarrow>
               sends (run_calls e cs s') = sends s' \<and>
               fst (play_run e 2 (ppc, run_calls e cs s')) = PlayDone) \<and>
            (\<forall>cs k. stream_response s' = Some k \<and> k < stream_opens s' \<longrightarrow>
               sent_on k (run_calls e cs s') = sent_on k s'))"
proof -
  note l = process_responses_leaves[OF assms]
  have x: "process_responses (Some m) (pc, s) = (RespDone, s\<lparr>is_active := False\<rparr>)"
    if "m = StopAsyncIteration \<or> m = ReceiveError \<or> m = CancelledError \<or>
        m = UnicodeDecodeError \<or> (\<exists>j x. m = Document j \<and> handle_document j s = Inl x)"
    using that l(1,2,3,4,5) by blast
  have y: "process_responses r (RespLoopHead, s) = (RespDone, s\<lparr>is_active := False\<rparr>)"
    if "\<not> is_active s"
    using that by (rule process_responses_leaves(6)[OF assms])
  have z: "\<not> is_active s' \<and>
            (\<forall>cs. InitializeStream \<notin> set cs \<longrightarrow>
               sends (run_calls e cs s') = sends s' \<and>
               fst (play_run e 2 (ppc, run_calls e cs s')) = PlayDone) \<and>
            (\<forall>cs k. stream_response s' = Some k \<and> k < stream_opens s' \<longrightarrow>
               sent_on k (run_calls e cs s') = sent_on k s')"
    if h: "process_responses r (pc, s) = (RespDone, s')"
  proof -
    have i: "\<not> is_active s'"
      using assms h by (rule process_responses_exit)
    have a: "sends (run_calls e cs s') = sends s' \<and>
             fst (play_run e 2 (ppc, run_calls e cs s')) = PlayDone"
      if c: "InitializeStream \<notin> set cs" for cs
    proof -
      have q: "sends (run_calls e cs s') = sends s'" "\<not> is_active (run_calls e cs s')"
        using run_calls_quiet[OF c, of s' e] i by simp_all
      show ?thesis using q play_run_inactive by simp
    qed
    have b: "sent_on k (run_calls e cs s') = sent_on k s'"
      if "stream_response s' = Some k \<and> k < stream_opens s'" for cs k
      using that i by (intro run_calls_old_stream) simp_all
    show ?thesis using i a b by blast
  qed
  show ?thesis using x y z by blast
qed

text \<open>
  After the inbound loop has returned at end of stream, a renewed \<open>initialize_stream\<close>
  and a \<open>send_audio_content_start\<close> put six more events on the wire and leave the
  session active, and the playback loop does not return.  The claim as stated fails.
\<close>

theorem renewed_initialize_stream_sends_after_inbound_exit:
  "process_responses (Some StopAsyncIteration) (RespAwaitReceive, live_session) =
     (RespDone, live_session\<lparr>is_active := False\<rparr>) \<and>
   length (sends (live_session\<lparr>is_active := False\<rparr>)) = 5 \<and>
   length (sends (run_calls good_env [InitializeStream, SendAudioContentStart]
                    (live_session\<lparr>is_active := False\<rparr>))) = 11 \<and>
   is_active (run_calls good_env [InitializeStream, SendAudioContentStart]
                (live_session\<lparr>is_active := False\<rparr>)) \<and>
   fst (play_run good_env 10
          (PlayLoopHead, run_calls good_env [InitializeStream, SendAudioContentStart]
                           (live_session\<lparr>is_active := False\<rparr>))) \<noteq> PlayDone"
proof -
  let ?x = "live_session\<lparr>is_active := False\<rparr>"
  let ?y = "run_calls good_env [InitializeStream, SendAudioContentStart] ?x"
  have ok: "bedrock_client ?x \<or> client_ok good_env (client_attempts ?x)"
    "open_ok good_env (stream_opens ?x)"
    by (simp_all add: live_session_eq good_env_def)
  let ?z = "snd (initialize_stream good_env ?x)"
  have z: "is_active ?z" "stream_response ?z = Some 1" "length (sends ?z) = 10"
    "audio_output_queue ?z = []"
    unfolding initialize_stream_ok[OF ok]
    by (simp_all add: live_session_fields initialize_client_def)
  have r: "?y = send_audio_content_start good_env ?z"
    by (simp only: run_calls.simps do_call.simps)
  have y: "length (sends ?y) = 11" "is_active ?y" "audio_output_queue ?y = []"
    unfolding r send_audio_content_start_def send_raw_event_active[OF z(2,1)]
    by (simp_all add: z)
  have p: "fst (play_run good_env 10 (PlayLoopHead, ?y)) \<noteq> PlayDone"
    using y(2,3) by (rule play_run_active) simp
  have a: "process_responses (Some StopAsyncIteration) (RespAwaitReceive, live_session) =
     (RespDone, ?x)"
    by (simp add: resp_deliver_def)
  have b: "length (sends ?x) = 5"
    by (simp add: live_session_fields)
  show ?thesis using a b y(1,2) p by blast
qed

theorem inbound_exit_silences_session_witness:
  "process_responses (Some StopAsyncIteration) (RespAwaitReceive, live_session) =
     (RespDone, live_session\<lparr>is_active := False\<rparr>) \<and>
   \<not> is_active (live_session\<lparr>is_active := False\<rparr>) \<and>
   sends (run_calls good_env
            [SendAudioContentStart, AddAudioChunk [1, 2], ProcessAudioInput PumpAwaitGet,
             SendAudioContentEnd, StopConversation]
            (live_session\<lparr>is_active := False\<rparr>)) = sends live_session \<and>
   fst (play_run good_env 2 (PlayAwaitGet, live_session\<lparr>is_active := False\<rparr>)) = PlayDone \<and>
   sent_on 0 (run_calls good_env [InitializeStream, SendAudioContentStart]
                (live_session\<lparr>is_active := False\<rparr>)) = sent_on 0 live_session"
proof -
  let ?s' = "live_session\<lparr>is_active := False\<rparr>"
  have a: "RespAwaitReceive \<noteq> RespDone" by simp
  note t = inbound_exit_silences_session[OF a, of StopAsyncIteration live_session
             "Some StopAsyncIteration" ?s' good_env PlayAwaitGet]
  from t have b: "process_responses (Some StopAsyncIteration) (RespAwaitReceive, live_session) =
           (RespDone, ?s')"
    by blast
  have c: "InitializeStream \<notin> set [SendAudioContentStart, AddAudioChunk [1, 2],
             ProcessAudioInput PumpAwaitGet, SendAudioContentEnd, StopConversation]"
    "InitializeStream \<notin> set []"
    by simp_all
  have d: "stream_response ?s' = Some 0 \<and> 0 < stream_opens ?s'"
    by (simp add: live_session_fields)
  have e: "sent_on 0 ?s' = sent_on 0 live_session" "sends ?s' = sends live_session"
    by (simp_all add: sent_on_def)
  from t b have t1: "\<not> is_active ?s'" by blast
  from t b c(1) have t2: "sends (run_calls good_env
            [SendAudioContentStart, AddAudioChunk [1, 2], ProcessAudioInput PumpAwaitGet,
             SendAudioContentEnd, StopConversation] ?s') = sends ?s'"
    by blast
  from t b c(2) have t3:
    "fst (play_run good_env 2 (PlayAwaitGet, run_calls good_env [] ?s')) = PlayDone"
    by blast
  from t b d have t4:
    "sent_on 0 (run_calls good_env [InitializeStream, SendAudioContentStart] ?s') =
      sent_on 0 ?s'"
    by blast
  from b t1 t2 t3 t4 e show ?thesis
    unfolding run_calls.simps(1) by (simp only: simp_thms)
qed

end
